theory Spec2Isabelle
  imports Main
begin

section \<open>CareTag: session-gated record access\<close>

text \<open>
  The development embeds the access-session model of the CareTag repository:
  the \<^verbatim>\<open>access_sessions\<close> table with its row-level policies and the
  \<^verbatim>\<open>has_active_session\<close> function (migration 20260202053819), the client hook
  \<^verbatim>\<open>useAccessSession\<close> (query, \<^verbatim>\<open>startSession\<close>, \<^verbatim>\<open>endSession\<close>), the role
  functions \<^verbatim>\<open>handle_new_user\<close>, \<^verbatim>\<open>promote_to_admin\<close>, \<^verbatim>\<open>demote_from_admin\<close>
  (migration 20260204104315) and \<^verbatim>\<open>processScannedId\<close> of the scan page.

  The store is modelled as a record of tables, each table a list of rows in insertion
  order. The store runs each request (one statement) alone; an operation of the client
  that sends several requests can have requests of other calls between them (see
  \<open>evolves\<close>). The store itself answers every statement: the only errors are those the
  policies, constraints and the code raise.
\<close>

subsection \<open>Data model\<close>

text \<open>UUID columns and JavaScript identifiers are strings; timestamps are points on an
  integer time line (\<^verbatim>\<open>now()\<close> and \<^verbatim>\<open>new Date()\<close> are parameters of the
  operations that read them).\<close>

type_synonym uuid = string
type_synonym timestamp = int

text \<open>\<^verbatim>\<open>status TEXT CHECK (status IN ('active', 'completed', 'expired'))\<close>\<close>

datatype session_status = Active | Completed | Expired

text \<open>A row of \<^verbatim>\<open>public.access_sessions\<close>; the column \<^verbatim>\<open>id\<close> is the field
  \<open>session_id\<close>, the column \<^verbatim>\<open>notes\<close> the field \<open>session_notes\<close>.\<close>

record access_session =
  session_id :: uuid
  doctor_id :: uuid
  patient_id :: uuid
  started_at :: timestamp
  ended_at :: "timestamp option"
  status :: session_status
  session_notes :: "string option"
  created_at :: timestamp

text \<open>The enum \<^verbatim>\<open>app_role\<close> is declared outside the migrations at hand; the policies
  use its values \<^verbatim>\<open>'admin'\<close> and \<^verbatim>\<open>'doctor'\<close>.\<close>

datatype app_role = Admin | Doctor

text \<open>A row of \<^verbatim>\<open>public.user_roles\<close> (columns \<^verbatim>\<open>user_id\<close>, \<^verbatim>\<open>role\<close>).\<close>

record role_row =
  user_id :: uuid
  role :: app_role

text \<open>A row of \<^verbatim>\<open>public.patients\<close>: the column \<^verbatim>\<open>id\<close> (field \<open>patient_pk\<close>) and the
  columns that \<^verbatim>\<open>generateRandomPatient\<close> fills.\<close>

record patient =
  patient_pk :: uuid
  full_name :: string
  caretag_id :: string
  date_of_birth :: string
  gender :: string
  blood_group :: string
  phone :: string
  email :: string

text \<open>A row of \<^verbatim>\<open>public.profiles\<close> as \<^verbatim>\<open>handle_new_user\<close> writes it.\<close>

record profile =
  profile_id :: uuid
  profile_full_name :: "string option"
  profile_email :: "string option"

text \<open>A row of \<^verbatim>\<open>public.audit_logs\<close>; \<open>details\<close> is the JSON object built by
  \<^verbatim>\<open>jsonb_build_object\<close>, as its list of keys and values.\<close>

datatype json = JText string | JTime timestamp | JNull

record audit_log =
  actor_id :: "uuid option"
  action :: string
  entity_type :: string
  entity_id :: uuid
  details :: "(string \<times> json) list"

record db =
  access_sessions :: "access_session list"
  patients :: "patient list"
  user_roles :: "role_row list"
  profiles :: "profile list"
  audit_logs :: "audit_log list"

definition empty_db :: db where
  "empty_db = \<lparr>access_sessions = [], patients = [], user_roles = [], profiles = [],
     audit_logs = []\<rparr>"

text \<open>Every raise of the code and every refusal of the store is a value:
  \<^item> \<open>Not_authenticated\<close>: \<^verbatim>\<open>throw new Error('Not authenticated')\<close>;
  \<^item> \<open>Only_admins_can_promote\<close>: \<^verbatim>\<open>RAISE EXCEPTION 'Only admins can promote users to admin role'\<close>;
  \<^item> \<open>Only_admins_can_demote\<close>: \<^verbatim>\<open>RAISE EXCEPTION 'Only admins can demote users'\<close>;
  \<^item> \<open>Cannot_demote_yourself\<close>: \<^verbatim>\<open>RAISE EXCEPTION 'Cannot demote yourself'\<close>;
  \<^item> \<open>Row_level_security_violation\<close>: a new row fails the \<^verbatim>\<open>WITH CHECK\<close> of its insert policy;
  \<^item> \<open>Unique_violation\<close>, \<open>Foreign_key_violation\<close>: a primary key or a \<^verbatim>\<open>REFERENCES\<close> constraint fails;
  \<^item> \<open>Multiple_rows\<close>: \<^verbatim>\<open>.maybeSingle()\<close> or \<^verbatim>\<open>.single()\<close> on more than one row.\<close>

datatype error =
    Not_authenticated
  | Only_admins_can_promote
  | Only_admins_can_demote
  | Cannot_demote_yourself
  | Row_level_security_violation
  | Unique_violation
  | Foreign_key_violation
  | Multiple_rows

subsection \<open>Roles\<close>

text \<open>Modelled from the spec: \<^verbatim>\<open>has_role(_user_id, _role)\<close> is called by every policy and
  by the role functions, and its body is in none of the migrations at hand. The spec
  names it the predicate \<^verbatim>\<open>hasRole(user, role)\<close> of the role registry: the user holds
  the role, that is, \<^verbatim>\<open>user_roles\<close> has a row for this user and role. The first
  argument is \<^verbatim>\<open>auth.uid()\<close>, which is \<^verbatim>\<open>NULL\<close> (\<open>None\<close>) for a request without a
  signed-in user; no row matches it.\<close>

definition has_role :: "db \<Rightarrow> uuid option \<Rightarrow> app_role \<Rightarrow> bool" where
  "has_role d uid r =
     (case uid of
        None \<Rightarrow> False
      | Some u \<Rightarrow> \<exists>row \<in> set (user_roles d). user_id row = u \<and> role row = r)"

subsection \<open>The session store\<close>

text \<open>\<^verbatim>\<open>CREATE POLICY "Doctors can view their own sessions" ... FOR SELECT USING (doctor_id = auth.uid())\<close>
  and \<^verbatim>\<open>"Admins can view all sessions" ... USING (has_role(auth.uid(), 'admin'))\<close>: a row is
  visible to a query when one of the two holds.\<close>

definition rls_select_access_sessions :: "db \<Rightarrow> uuid option \<Rightarrow> access_session \<Rightarrow> bool" where
  "rls_select_access_sessions d auth s = (auth = Some (doctor_id s) \<or> has_role d auth Admin)"

text \<open>\<^verbatim>\<open>CREATE POLICY "Doctors can end their own sessions" ... FOR UPDATE USING (doctor_id = auth.uid())\<close>.\<close>

definition rls_update_access_sessions :: "uuid option \<Rightarrow> access_session \<Rightarrow> bool" where
  "rls_update_access_sessions auth s = (auth = Some (doctor_id s))"

text \<open>\<^verbatim>\<open>CREATE POLICY "Doctors can create sessions" ... FOR INSERT
  WITH CHECK (doctor_id = auth.uid() AND has_role(auth.uid(), 'doctor'))\<close>.\<close>

definition rls_insert_access_sessions :: "db \<Rightarrow> uuid option \<Rightarrow> access_session \<Rightarrow> bool" where
  "rls_insert_access_sessions d auth s = (auth = Some (doctor_id s) \<and> has_role d auth Doctor)"

text \<open>\<^verbatim>\<open>UPDATE access_sessions SET ... WHERE ...\<close> sent by the user \<open>auth\<close>: the rows that
  the update policy shows and the \<^verbatim>\<open>WHERE\<close> filter selects are rewritten by \<open>f\<close>, the
  others stay; rows hidden by the policy are skipped without an error. (Neither update of
  the code changes \<^verbatim>\<open>doctor_id\<close>, so the rewritten row passes the policy again, and
  \<^verbatim>\<open>'completed'\<close> passes the \<^verbatim>\<open>CHECK\<close> on \<^verbatim>\<open>status\<close>.)\<close>

definition update_access_sessions ::
  "uuid option \<Rightarrow> (access_session \<Rightarrow> bool) \<Rightarrow> (access_session \<Rightarrow> access_session) \<Rightarrow> db \<Rightarrow> db"
where
  "update_access_sessions auth wh f d =
     d\<lparr>access_sessions :=
          map (\<lambda>s. if rls_update_access_sessions auth s \<and> wh s then f s else s)
            (access_sessions d)\<rparr>"

text \<open>\<^verbatim>\<open>INSERT INTO access_sessions (doctor_id, patient_id, status) VALUES ...\<close> followed by
  \<^verbatim>\<open>.select().single()\<close>. The defaults fill the other columns: \<^verbatim>\<open>id\<close> is
  \<^verbatim>\<open>gen_random_uuid()\<close> (the parameter \<open>new_id\<close>), \<^verbatim>\<open>started_at\<close> and
  \<^verbatim>\<open>created_at\<close> are \<^verbatim>\<open>now()\<close> (the parameter \<open>db_now\<close>), \<^verbatim>\<open>ended_at\<close> and
  \<^verbatim>\<open>notes\<close> are \<^verbatim>\<open>NULL\<close>. The insert policy, the primary key on \<^verbatim>\<open>id\<close> and the
  foreign key \<^verbatim>\<open>patient_id REFERENCES patients(id)\<close> can each refuse the row.\<close>

definition insert_access_session ::
  "uuid option \<Rightarrow> uuid \<Rightarrow> uuid \<Rightarrow> session_status \<Rightarrow> uuid \<Rightarrow> timestamp \<Rightarrow> db
     \<Rightarrow> error + access_session \<times> db"
where
  "insert_access_session auth doctor pat st new_id db_now d =
     (let row = \<lparr>session_id = new_id, doctor_id = doctor, patient_id = pat,
                  started_at = db_now, ended_at = None, status = st, session_notes = None,
                  created_at = db_now\<rparr>
      in if \<not> rls_insert_access_sessions d auth row then Inl Row_level_security_violation
         else if new_id \<in> set (map session_id (access_sessions d)) then Inl Unique_violation
         else if pat \<notin> set (map patient_pk (patients d)) then Inl Foreign_key_violation
         else Inr (row, d\<lparr>access_sessions := access_sessions d @ [row]\<rparr>))"

text \<open>\<^verbatim>\<open>.maybeSingle()\<close>: no row is \<^verbatim>\<open>null\<close>, one row is that row, more rows are an error.\<close>

fun maybe_single :: "'a list \<Rightarrow> error + 'a option" where
  "maybe_single [] = Inr None"
| "maybe_single [x] = Inr (Some x)"
| "maybe_single (x # y # zs) = Inl Multiple_rows"

subsection \<open>The session lifecycle (\<^verbatim>\<open>useAccessSession\<close>)\<close>

text \<open>JavaScript truthiness of an optional string: \<^verbatim>\<open>undefined\<close>, \<^verbatim>\<open>null\<close> and the
  empty string are falsy. \<open>or_null\<close> is \<^verbatim>\<open>x || null\<close>.\<close>

definition or_null :: "string option \<Rightarrow> string option" where
  "or_null x = (case x of None \<Rightarrow> None | Some s \<Rightarrow> if s = [] then None else Some s)"

text \<open>The \<^verbatim>\<open>queryFn\<close> of the active-session query: with no patient or no user the
  result is \<^verbatim>\<open>null\<close>; otherwise the visible rows with this doctor, this patient,
  \<^verbatim>\<open>status = 'active'\<close> and \<^verbatim>\<open>ended_at IS NULL\<close>, through \<^verbatim>\<open>.maybeSingle()\<close>.\<close>

definition activeSession :: "uuid option \<Rightarrow> uuid option \<Rightarrow> db \<Rightarrow> error + access_session option" where
  "activeSession user patientId d =
     (case (or_null patientId, or_null user) of
        (Some p, Some u) \<Rightarrow>
          maybe_single
            (filter (\<lambda>s. rls_select_access_sessions d user s \<and> doctor_id s = u \<and> patient_id s = p
                          \<and> status s = Active \<and> ended_at s = None)
               (access_sessions d))
      | _ \<Rightarrow> Inr None)"

text \<open>\<^verbatim>\<open>startSessionMutation.mutationFn\<close>. Without a user it throws. Otherwise it first
  closes every active session of this doctor (the result of this update is not looked at),
  with \<^verbatim>\<open>ended_at\<close> the client's clock \<open>client_now\<close>, then inserts the new row and
  returns it, or throws the insert's error. The store is returned in both cases: a failed
  insert leaves the sessions closed.\<close>

definition startSession ::
  "uuid option \<Rightarrow> uuid \<Rightarrow> timestamp \<Rightarrow> timestamp \<Rightarrow> uuid \<Rightarrow> db \<Rightarrow> (error + access_session) \<times> db"
where
  "startSession user patientId client_now db_now new_id d =
     (case or_null user of
        None \<Rightarrow> (Inl Not_authenticated, d)
      | Some u \<Rightarrow>
          (let d1 = update_access_sessions user
                      (\<lambda>s. doctor_id s = u \<and> status s = Active)
                      (\<lambda>s. s\<lparr>status := Completed, ended_at := Some client_now\<rparr>) d
           in case insert_access_session user u patientId Active new_id db_now d1 of
                Inl e \<Rightarrow> (Inl e, d1)
              | Inr (row, d2) \<Rightarrow> (Inr row, d2)))"

text \<open>\<^verbatim>\<open>endSessionMutation.mutationFn\<close>: one update of the rows with this \<^verbatim>\<open>id\<close>, setting
  \<^verbatim>\<open>status\<close>, \<^verbatim>\<open>ended_at\<close> (the client's clock) and \<^verbatim>\<open>notes: notes || null\<close>. The
  update names no other condition; the update policy of the table applies to it as to
  every request. It violates no constraint, so it returns without an error.\<close>

definition endSession ::
  "uuid option \<Rightarrow> uuid \<Rightarrow> string option \<Rightarrow> timestamp \<Rightarrow> db \<Rightarrow> (error + unit) \<times> db"
where
  "endSession user sessionId notes_arg client_now d =
     (Inr (),
      update_access_sessions user (\<lambda>s. session_id s = sessionId)
        (\<lambda>s. s\<lparr>status := Completed, ended_at := Some client_now, session_notes := or_null notes_arg\<rparr>) d)"

text \<open>\<^verbatim>\<open>has_active_session(_doctor_id, _patient_id)\<close>, a \<^verbatim>\<open>SECURITY DEFINER\<close> function
  (it reads the table past the policies); \<open>db_now\<close> is \<^verbatim>\<open>now()\<close>.\<close>

definition has_active_session :: "db \<Rightarrow> timestamp \<Rightarrow> uuid option \<Rightarrow> uuid \<Rightarrow> bool" where
  "has_active_session d db_now doctor pat =
     (\<exists>s \<in> set (access_sessions d).
        Some (doctor_id s) = doctor \<and> patient_id s = pat \<and> status s = Active
        \<and> (case ended_at s of None \<Rightarrow> True | Some e \<Rightarrow> e > db_now))"

subsection \<open>Policies of the sensitive tables\<close>

datatype sensitive_table = Medical_records | Vitals | Prescriptions | Lab_results | Emergency_records

text \<open>What the policies read of a row of a sensitive table: \<^verbatim>\<open>patient_id\<close> and
  \<^verbatim>\<open>doctor_id\<close>. The tables are declared outside the migrations at hand;
  \<open>rec_doctor_id\<close> is \<open>None\<close> for a row with no doctor (a \<^verbatim>\<open>NULL\<close>, or a table with no
  such column: only the policies of \<^verbatim>\<open>medical_records\<close> and \<^verbatim>\<open>prescriptions\<close> name
  it).\<close>

record sensitive_row =
  rec_patient_id :: uuid
  rec_doctor_id :: "uuid option"

text \<open>SQL's \<^verbatim>\<open>a = b\<close> as a policy condition: it holds when both sides are present and
  equal (\<^verbatim>\<open>NULL = x\<close> is not true).\<close>

definition sql_eq :: "uuid option \<Rightarrow> uuid option \<Rightarrow> bool" where
  "sql_eq a b = (a \<noteq> None \<and> a = b)"

text \<open>The five \<^verbatim>\<open>FOR SELECT\<close> policies, one equation each:
  \<^verbatim>\<open>USING (has_role(auth.uid(), 'admin') OR (has_role(auth.uid(), 'doctor')
     AND has_active_session(auth.uid(), patient_id)))\<close>.\<close>

fun select_policy :: "sensitive_table \<Rightarrow> db \<Rightarrow> timestamp \<Rightarrow> uuid option \<Rightarrow> sensitive_row \<Rightarrow> bool" where
  "select_policy Medical_records d db_now auth r =
     (has_role d auth Admin
      \<or> (has_role d auth Doctor \<and> has_active_session d db_now auth (rec_patient_id r)))"
| "select_policy Vitals d db_now auth r =
     (has_role d auth Admin
      \<or> (has_role d auth Doctor \<and> has_active_session d db_now auth (rec_patient_id r)))"
| "select_policy Prescriptions d db_now auth r =
     (has_role d auth Admin
      \<or> (has_role d auth Doctor \<and> has_active_session d db_now auth (rec_patient_id r)))"
| "select_policy Lab_results d db_now auth r =
     (has_role d auth Admin
      \<or> (has_role d auth Doctor \<and> has_active_session d db_now auth (rec_patient_id r)))"
| "select_policy Emergency_records d db_now auth r =
     (has_role d auth Admin
      \<or> (has_role d auth Doctor \<and> has_active_session d db_now auth (rec_patient_id r)))"

text \<open>The five \<^verbatim>\<open>FOR INSERT ... WITH CHECK\<close> policies, on the new row.\<close>

fun insert_policy :: "sensitive_table \<Rightarrow> db \<Rightarrow> timestamp \<Rightarrow> uuid option \<Rightarrow> sensitive_row \<Rightarrow> bool" where
  "insert_policy Medical_records d db_now auth r =
     (has_role d auth Doctor \<and> sql_eq (rec_doctor_id r) auth
      \<and> has_active_session d db_now auth (rec_patient_id r))"
| "insert_policy Vitals d db_now auth r =
     (has_role d auth Doctor \<and> has_active_session d db_now auth (rec_patient_id r))"
| "insert_policy Prescriptions d db_now auth r =
     (has_role d auth Doctor \<and> sql_eq (rec_doctor_id r) auth
      \<and> has_active_session d db_now auth (rec_patient_id r))"
| "insert_policy Lab_results d db_now auth r =
     (has_role d auth Doctor \<and> has_active_session d db_now auth (rec_patient_id r))"
| "insert_policy Emergency_records d db_now auth r =
     (has_role d auth Doctor \<and> has_active_session d db_now auth (rec_patient_id r))"

text \<open>The expressions of the four \<^verbatim>\<open>FOR UPDATE ... USING\<close> policies, as functions of a
  row. The migrations at hand create no update policy for \<^verbatim>\<open>vitals\<close>: \<open>None\<close>.\<close>

fun update_using ::
  "sensitive_table \<Rightarrow> db \<Rightarrow> timestamp \<Rightarrow> uuid option \<Rightarrow> sensitive_row \<Rightarrow> bool option"
where
  "update_using Medical_records d db_now auth r =
     Some (sql_eq (rec_doctor_id r) auth \<and> has_active_session d db_now auth (rec_patient_id r))"
| "update_using Vitals d db_now auth r = None"
| "update_using Prescriptions d db_now auth r =
     Some (sql_eq (rec_doctor_id r) auth \<and> has_active_session d db_now auth (rec_patient_id r))"
| "update_using Lab_results d db_now auth r =
     Some (has_role d auth Doctor \<and> has_active_session d db_now auth (rec_patient_id r))"
| "update_using Emergency_records d db_now auth r =
     Some (has_role d auth Doctor \<and> has_active_session d db_now auth (rec_patient_id r))"

text \<open>A read of a sensitive table by the client
  (\<^verbatim>\<open>supabase.from(t).select(...)\<close>, then \<^verbatim>\<open>if (error) throw error; return data\<close>), as
  far as the policies decide it: of the rows that the query selects, the store returns
  those for which the \<^verbatim>\<open>FOR SELECT\<close> policy holds. A row for which it fails is left out
  of the result; no error is raised for it.\<close>

definition read_sensitive ::
  "sensitive_table \<Rightarrow> db \<Rightarrow> timestamp \<Rightarrow> uuid option \<Rightarrow> sensitive_row list
     \<Rightarrow> error + sensitive_row list"
where
  "read_sensitive t d db_now auth rows = Inr (filter (select_policy t d db_now auth) rows)"

text \<open>The update of one row of a sensitive table, from the stored row \<open>old\<close> to the new row
  \<open>new\<close>. A policy \<^verbatim>\<open>FOR UPDATE\<close> with \<^verbatim>\<open>USING\<close> and no \<^verbatim>\<open>WITH CHECK\<close> binds both
  rows: a stored row that fails the expression is not visible to the update and is
  skipped without an error; a new row that fails it is refused (\<^verbatim>\<open>new row violates
  row-level security policy\<close>). When the statement reads the table (a filter on its
  columns, as the \<^verbatim>\<open>.eq(...)\<close> of the client, or returned rows), the \<^verbatim>\<open>FOR SELECT\<close>
  policy binds the stored row and the new row in the same two ways; \<open>reads\<close> says whether
  it does. The result is \<open>None\<close> where the migrations have no update policy.\<close>

datatype update_outcome = Row_skipped | Row_updated

definition update_sensitive ::
  "sensitive_table \<Rightarrow> db \<Rightarrow> timestamp \<Rightarrow> uuid option \<Rightarrow> bool \<Rightarrow> sensitive_row \<Rightarrow> sensitive_row
     \<Rightarrow> (error + update_outcome) option"
where
  "update_sensitive t d db_now auth reads old new =
     (case (update_using t d db_now auth old, update_using t d db_now auth new) of
        (Some visible, Some passes) \<Rightarrow>
          Some (if \<not> (visible \<and> (reads \<longrightarrow> select_policy t d db_now auth old))
                  then Inr Row_skipped
                else if \<not> (passes \<and> (reads \<longrightarrow> select_policy t d db_now auth new))
                  then Inl Row_level_security_violation
                else Inr Row_updated)
      | _ \<Rightarrow> None)"

subsection \<open>The role functions\<close>

text \<open>The new row of \<^verbatim>\<open>auth.users\<close> that fires \<^verbatim>\<open>handle_new_user\<close>;
  \<open>raw_user_meta_data\<close> is the signup payload under the operator \<^verbatim>\<open>->>\<close>: the text
  stored at a key, if any.\<close>

record auth_user =
  au_id :: uuid
  au_email :: "string option"
  raw_user_meta_data :: "string \<rightharpoonup> string"

text \<open>\<^verbatim>\<open>handle_new_user()\<close>: a profile row with
  \<^verbatim>\<open>COALESCE(NEW.raw_user_meta_data ->> 'full_name', NEW.email)\<close>, then a role row
  \<^verbatim>\<open>(NEW.id, 'doctor')\<close>. (The two tables are declared outside the migrations at hand;
  the inserts are modelled as succeeding.)\<close>

definition handle_new_user :: "auth_user \<Rightarrow> db \<Rightarrow> db" where
  "handle_new_user NEW d =
     d\<lparr>profiles := profiles d @
          [\<lparr>profile_id = au_id NEW,
            profile_full_name =
              (case raw_user_meta_data NEW ''full_name'' of
                 Some n \<Rightarrow> Some n
               | None \<Rightarrow> au_email NEW),
            profile_email = au_email NEW\<rparr>],
       user_roles := user_roles d @ [\<lparr>user_id = au_id NEW, role = Doctor\<rparr>]\<rparr>"

text \<open>\<^verbatim>\<open>promote_to_admin(_user_id)\<close>; \<open>auth\<close> is \<^verbatim>\<open>auth.uid()\<close>, \<open>db_now\<close> is
  \<^verbatim>\<open>now()\<close>. \<^verbatim>\<open>FOUND\<close> is whether the update touched a row.\<close>

definition promote_to_admin :: "uuid option \<Rightarrow> uuid \<Rightarrow> timestamp \<Rightarrow> db \<Rightarrow> error + db" where
  "promote_to_admin auth target db_now d =
     (if \<not> has_role d auth Admin then Inl Only_admins_can_promote
      else
        let found = (\<exists>row \<in> set (user_roles d). user_id row = target);
            rows1 = map (\<lambda>row. if user_id row = target then row\<lparr>role := Admin\<rparr> else row)
                      (user_roles d);
            rows2 = (if \<not> found then rows1 @ [\<lparr>user_id = target, role = Admin\<rparr>] else rows1)
        in Inr (d\<lparr>user_roles := rows2,
                  audit_logs := audit_logs d @
                    [\<lparr>actor_id = auth, action = ''PROMOTE_TO_ADMIN'',
                      entity_type = ''user_roles'', entity_id = target,
                      details = [(''promoted_user_id'', JText target),
                                 (''promoted_by'', (case auth of None \<Rightarrow> JNull | Some a \<Rightarrow> JText a)),
                                 (''promoted_at'', JTime db_now)]\<rparr>]\<rparr>))"

text \<open>\<^verbatim>\<open>demote_from_admin(_user_id)\<close>: the two guards in the order of the source, the
  update \<^verbatim>\<open>WHERE user_id = _user_id AND role = 'admin'\<close>, then the audit row.\<close>

definition demote_from_admin :: "uuid option \<Rightarrow> uuid \<Rightarrow> timestamp \<Rightarrow> db \<Rightarrow> error + db" where
  "demote_from_admin auth target db_now d =
     (if \<not> has_role d auth Admin then Inl Only_admins_can_demote
      else if Some target = auth then Inl Cannot_demote_yourself
      else
        Inr (d\<lparr>user_roles :=
                  map (\<lambda>row. if user_id row = target \<and> role row = Admin
                              then row\<lparr>role := Doctor\<rparr> else row)
                    (user_roles d),
                audit_logs := audit_logs d @
                  [\<lparr>actor_id = auth, action = ''DEMOTE_FROM_ADMIN'',
                    entity_type = ''user_roles'', entity_id = target,
                    details = [(''demoted_user_id'', JText target),
                               (''demoted_by'', (case auth of None \<Rightarrow> JNull | Some a \<Rightarrow> JText a)),
                               (''demoted_at'', JTime db_now)]\<rparr>]\<rparr>))"

subsection \<open>Tag resolution (\<^verbatim>\<open>processScannedId\<close>)\<close>

text \<open>Tags are strings of ASCII characters here. \<^verbatim>\<open>String.prototype.trim\<close> removes
  white space and line terminators at both ends (in ASCII: tab, line feed, vertical tab,
  form feed, carriage return, space); \<^verbatim>\<open>toUpperCase\<close> maps \<^verbatim>\<open>a\<close>..\<^verbatim>\<open>z\<close> to
  \<^verbatim>\<open>A\<close>..\<^verbatim>\<open>Z\<close>. Characters outside ASCII, where JavaScript follows the Unicode
  tables, are left as they are by both functions of the model.\<close>

definition js_whitespace :: "char \<Rightarrow> bool" where
  "js_whitespace c = (c \<in> set [CHR 0x09, CHR 0x0A, CHR 0x0B, CHR 0x0C, CHR 0x0D, CHR 0x20])"

definition js_trim :: "string \<Rightarrow> string" where
  "js_trim s = rev (dropWhile js_whitespace (rev (dropWhile js_whitespace s)))"

definition js_upper_char :: "char \<Rightarrow> char" where
  "js_upper_char c =
     (let n = (of_char c :: nat) in if 97 \<le> n \<and> n \<le> 122 then char_of (n - 32) else c)"

definition js_toUpperCase :: "string \<Rightarrow> string" where
  "js_toUpperCase s = map js_upper_char s"

text \<open>\<^verbatim>\<open>supabase.from('patients').select(...).eq('caretag_id', scannedId).maybeSingle()\<close>.
  (The table and its policies are declared outside the migrations at hand; the spec has
  the identification fields readable by every doctor.)\<close>

definition select_patient_by_caretag :: "string \<Rightarrow> db \<Rightarrow> error + patient option" where
  "select_patient_by_caretag scannedId d =
     maybe_single (filter (\<lambda>p. caretag_id p = scannedId) (patients d))"

text \<open>\<^verbatim>\<open>supabase.from('patients').insert(newPatientData).select(...).single()\<close>: the row
  gets a generated \<^verbatim>\<open>id\<close> (the parameter \<open>new_id\<close>; the field \<open>patient_pk\<close> of the
  argument is not read, the JavaScript object has none). \<^verbatim>\<open>patients(id)\<close> is the target
  of a foreign key, hence unique. No constraint on \<^verbatim>\<open>caretag_id\<close> is modelled.\<close>

definition insert_patient :: "patient \<Rightarrow> uuid \<Rightarrow> db \<Rightarrow> error + patient \<times> db" where
  "insert_patient newPatientData new_id d =
     (let row = newPatientData\<lparr>patient_pk := new_id\<rparr>
      in if new_id \<in> set (map patient_pk (patients d)) then Inl Unique_violation
         else Inr (row, d\<lparr>patients := patients d @ [row]\<rparr>))"

text \<open>Where one run of \<^verbatim>\<open>processScannedId\<close> ends: at the guard on
  \<^verbatim>\<open>processingRef\<close> (\<open>Ignored\<close>), in the state \<^verbatim>\<open>'mismatch'\<close>, at
  \<^verbatim>\<open>navigate('/patients/' + id)\<close>, or in the \<^verbatim>\<open>catch\<close> (\<open>Scan_failed\<close>).\<close>

datatype scan_outcome = Ignored | Mismatch string | Navigated uuid | Scan_failed error

text \<open>What a run reads besides the scanned string and the store: the flag
  \<^verbatim>\<open>processingRef.current\<close>, the URL parameters \<^verbatim>\<open>expect\<close> and \<^verbatim>\<open>id\<close>, the
  signed-in user, the result of \<^verbatim>\<open>generateRandomPatient()\<close>, the identifiers the store
  generates and the two clocks.\<close>

record scan_env =
  processing :: bool
  param_expect :: "string option"
  param_id :: "string option"
  env_user :: "uuid option"
  random_patient :: patient
  new_patient_id :: uuid
  new_session_id :: uuid
  env_client_now :: timestamp
  env_db_now :: timestamp

text \<open>The three places where \<^verbatim>\<open>processScannedId\<close> runs
  \<^verbatim>\<open>await startSession(id); ...; navigate('/patients/' + id)\<close>; a throw of
  \<^verbatim>\<open>startSession\<close> lands in the \<^verbatim>\<open>catch\<close>.\<close>

definition start_and_navigate :: "scan_env \<Rightarrow> uuid \<Rightarrow> db \<Rightarrow> scan_outcome \<times> db" where
  "start_and_navigate env pid d =
     (case startSession (env_user env) pid (env_client_now env) (env_db_now env)
             (new_session_id env) d of
        (Inl e, d') \<Rightarrow> (Scan_failed e, d')
      | (Inr s, d') \<Rightarrow> (Navigated pid, d'))"

text \<open>The part of \<^verbatim>\<open>processScannedId\<close> under the comment \<^verbatim>\<open>Direct scan mode\<close>: look the
  patient up by the scanned identifier; start a session for the patient found, or insert a
  new patient with \<^verbatim>\<open>newPatientData.caretag_id = scannedId\<close> and start a session for that
  one.\<close>

definition direct_scan :: "scan_env \<Rightarrow> string \<Rightarrow> db \<Rightarrow> scan_outcome \<times> db" where
  "direct_scan env scannedId d =
     (case select_patient_by_caretag scannedId d of
        Inl e \<Rightarrow> (Scan_failed e, d)
      | Inr (Some existingPatient) \<Rightarrow> start_and_navigate env (patient_pk existingPatient) d
      | Inr None \<Rightarrow>
          (case insert_patient ((random_patient env)\<lparr>caretag_id := scannedId\<rparr>)
                  (new_patient_id env) d of
             Inl e \<Rightarrow> (Scan_failed e, d)
           | Inr (newPatient, d1) \<Rightarrow> start_and_navigate env (patient_pk newPatient) d1))"

text \<open>\<^verbatim>\<open>processScannedId(caretagId)\<close>. \<^verbatim>\<open>expectedCaretagId\<close> is
  \<^verbatim>\<open>searchParams.get('expect')?.toUpperCase() || null\<close> and \<^verbatim>\<open>expectedPatientId\<close> is
  \<^verbatim>\<open>searchParams.get('id') || null\<close>. The sound, the delays, the toasts and the
  patient shown on the page do not reach the store and are left out.\<close>

definition processScannedId :: "scan_env \<Rightarrow> string \<Rightarrow> db \<Rightarrow> scan_outcome \<times> db" where
  "processScannedId env caretagId d =
     (if processing env then (Ignored, d)
      else
        let scannedId = js_toUpperCase (js_trim caretagId);
            expectedCaretagId = or_null (map_option js_toUpperCase (param_expect env));
            expectedPatientId = or_null (param_id env)
        in if expectedCaretagId \<noteq> None \<and> Some scannedId \<noteq> expectedCaretagId
             then (Mismatch scannedId, d)
           else
             (case (expectedPatientId, expectedCaretagId) of
                (Some pid, Some e) \<Rightarrow>
                  if scannedId = e then start_and_navigate env pid d
                  else direct_scan env scannedId d
              | _ \<Rightarrow> direct_scan env scannedId d))"

subsection \<open>Runs of the system\<close>

text \<open>\<^verbatim>\<open>startSession\<close> sends two requests, each awaited: the update that closes the
  doctor's active sessions, and the insert of the new session. The store runs each
  request alone, but requests of other calls can come between the two.\<close>

definition startSession_close :: "uuid \<Rightarrow> timestamp \<Rightarrow> db \<Rightarrow> db" where
  "startSession_close u client_now d =
     update_access_sessions (Some u)
       (\<lambda>s. doctor_id s = u \<and> status s = Active)
       (\<lambda>s. s\<lparr>status := Completed, ended_at := Some client_now\<rparr>) d"

definition startSession_insert ::
  "uuid \<Rightarrow> uuid \<Rightarrow> timestamp \<Rightarrow> uuid \<Rightarrow> db \<Rightarrow> error + access_session \<times> db"
where
  "startSession_insert u patientId db_now new_id d =
     insert_access_session (Some u) u patientId Active new_id db_now d"

text \<open>\<open>evolves d0 d\<close>: the store \<open>d\<close> comes from \<open>d0\<close> by a sequence of requests of the
  program, in any order and with any arguments: the two requests of \<^verbatim>\<open>startSession\<close>,
  the update of \<^verbatim>\<open>endSession\<close>, the insert of a patient by the scan page, and the role
  functions. A refused request leaves the store as it is.\<close>

inductive evolves :: "db \<Rightarrow> db \<Rightarrow> bool" for d0 :: db where
  e_refl: "evolves d0 d0"
| e_close: "evolves d0 d \<Longrightarrow> evolves d0 (startSession_close u client_now d)"
| e_insert: "evolves d0 d \<Longrightarrow> startSession_insert u pat db_now new_id d = Inr (row, d')
     \<Longrightarrow> evolves d0 d'"
| e_end: "evolves d0 d \<Longrightarrow> evolves d0 (snd (endSession user sid notes_arg client_now d))"
| e_patient: "evolves d0 d \<Longrightarrow> insert_patient p new_id d = Inr (prow, d') \<Longrightarrow> evolves d0 d'"
| e_new_user: "evolves d0 d \<Longrightarrow> evolves d0 (handle_new_user NEW d)"
| e_promote: "evolves d0 d \<Longrightarrow> promote_to_admin auth target db_now d = Inr d' \<Longrightarrow> evolves d0 d'"
| e_demote: "evolves d0 d \<Longrightarrow> demote_from_admin auth target db_now d = Inr d' \<Longrightarrow> evolves d0 d'"

text \<open>\<open>serial_run d0 d\<close>: the runs in which the requests of every call follow each other
  with no other request in between, so that each operation of the client is one step.\<close>

inductive serial_run :: "db \<Rightarrow> db \<Rightarrow> bool" for d0 :: db where
  s_refl: "serial_run d0 d0"
| s_start: "serial_run d0 d
     \<Longrightarrow> serial_run d0 (snd (startSession user pat client_now db_now new_id d))"
| s_end: "serial_run d0 d \<Longrightarrow> serial_run d0 (snd (endSession user sid notes_arg client_now d))"
| s_scan: "serial_run d0 d \<Longrightarrow> serial_run d0 (snd (processScannedId env tag d))"
| s_new_user: "serial_run d0 d \<Longrightarrow> serial_run d0 (handle_new_user NEW d)"
| s_promote: "serial_run d0 d \<Longrightarrow> promote_to_admin auth target db_now d = Inr d'
     \<Longrightarrow> serial_run d0 d'"
| s_demote: "serial_run d0 d \<Longrightarrow> demote_from_admin auth target db_now d = Inr d'
     \<Longrightarrow> serial_run d0 d'"

text \<open>The active sessions of a doctor.\<close>

definition active_sessions_of :: "uuid \<Rightarrow> db \<Rightarrow> access_session list" where
  "active_sessions_of doctor d =
     filter (\<lambda>s. doctor_id s = doctor \<and> status s = Active) (access_sessions d)"

text \<open>The \<^verbatim>\<open>SET\<close> clause of the first update of \<^verbatim>\<open>startSession\<close> on the rows it
  selects, as a function on rows.\<close>

definition close_active :: "uuid \<Rightarrow> timestamp \<Rightarrow> access_session \<Rightarrow> access_session" where
  "close_active u t s =
     (if doctor_id s = u \<and> status s = Active
      then s\<lparr>status := Completed, ended_at := Some t\<rparr> else s)"

subsection \<open>The spec's predicates\<close>

text \<open>From the spec's words: a session is usable for authorization while its status is
  active and its end timestamp is unset or in the future.\<close>

definition usable_session :: "timestamp \<Rightarrow> access_session \<Rightarrow> bool" where
  "usable_session db_now s =
     (status s = Active
      \<and> (ended_at s = None \<or> (case ended_at s of Some e \<Rightarrow> db_now < e | None \<Rightarrow> False)))"

text \<open>From the spec's words: a usable active session exists for the user \<open>U\<close> and the
  patient \<open>P\<close>.\<close>

definition session_for :: "db \<Rightarrow> timestamp \<Rightarrow> uuid option \<Rightarrow> uuid \<Rightarrow> bool" where
  "session_for d db_now U P =
     (\<exists>s \<in> set (access_sessions d). Some (doctor_id s) = U \<and> patient_id s = P
        \<and> usable_session db_now s)"

text \<open>The roles stored for a user, in the order of the rows.\<close>

definition roles_of :: "uuid \<Rightarrow> db \<Rightarrow> app_role list" where
  "roles_of u d = map role (filter (\<lambda>row. user_id row = u) (user_roles d))"

text \<open>The condition of the client's active-session query on a row, and the stores in
  which no active session carries an end timestamp.\<close>

definition active_open :: "uuid \<Rightarrow> uuid \<Rightarrow> access_session \<Rightarrow> bool" where
  "active_open D P s = (doctor_id s = D \<and> patient_id s = P \<and> status s = Active \<and> ended_at s = None)"

definition all_open :: "access_session list \<Rightarrow> bool" where
  "all_open xs = (\<forall>s \<in> set xs. status s = Active \<longrightarrow> ended_at s = None)"


text \<open>The \<^verbatim>\<open>SET\<close> clause of the update of \<^verbatim>\<open>endSession\<close>, as a function on rows.\<close>

definition end_row :: "string option \<Rightarrow> timestamp \<Rightarrow> access_session \<Rightarrow> access_session" where
  "end_row n t s = s\<lparr>status := Completed, ended_at := Some t, session_notes := or_null n\<rparr>"

text \<open>A row and a later version of it, and a session table and a later version of it:
  the rows keep their place and identity, a status changes only to completed, and rows
  that are new are active or completed.\<close>

definition session_step :: "access_session \<Rightarrow> access_session \<Rightarrow> bool" where
  "session_step s s' =
     (session_id s' = session_id s \<and> doctor_id s' = doctor_id s \<and> patient_id s' = patient_id s
      \<and> (status s' = status s \<or> status s' = Completed))"

definition later_sessions :: "access_session list \<Rightarrow> access_session list \<Rightarrow> bool" where
  "later_sessions xs ys =
     (length xs \<le> length ys
      \<and> (\<forall>i < length xs. session_step (xs ! i) (ys ! i))
      \<and> (\<forall>i < length ys. length xs \<le> i \<longrightarrow> status (ys ! i) = Active \<or> status (ys ! i) = Completed))"


text \<open>From the amended claim C4: what an update demands of a row, the stored one and the
  new one alike.\<close>

definition update_condition ::
  "sensitive_table \<Rightarrow> db \<Rightarrow> timestamp \<Rightarrow> uuid option \<Rightarrow> bool \<Rightarrow> sensitive_row \<Rightarrow> bool"
where
  "update_condition t d db_now U reads r =
     (session_for d db_now U (rec_patient_id r)
      \<and> (if t = Medical_records \<or> t = Prescriptions
          then sql_eq (rec_doctor_id r) U
               \<and> (if reads then has_role d U Doctor \<or> has_role d U Admin else True)
          else has_role d U Doctor))"

subsection \<open>A concrete store\<close>

text \<open>One doctor signs up (with \<^verbatim>\<open>role: "admin"\<close> in the payload), scans the new tag
  \<^verbatim>\<open>ct-1\<close> at time 10 and the new tag \<^verbatim>\<open>ct-2\<close> at time 20. \<open>demo_db\<close> is the store
  after that; the examples below start from it.\<close>

definition demo_patient :: patient where
  "demo_patient = \<lparr>patient_pk = [], full_name = ''Alex Smith'', caretag_id = ''CT-2026-1000'',
     date_of_birth = ''1980-01-01'', gender = ''Male'', blood_group = ''A+'',
     phone = ''+1-555-1000'', email = ''alex.smith@email.com''\<rparr>"

definition demo_env :: "uuid \<Rightarrow> uuid \<Rightarrow> timestamp \<Rightarrow> scan_env" where
  "demo_env pid sid t = \<lparr>processing = False, param_expect = None, param_id = None,
     env_user = Some ''doc-1'', random_patient = demo_patient, new_patient_id = pid,
     new_session_id = sid, env_client_now = t, env_db_now = t\<rparr>"

definition demo_user :: auth_user where
  "demo_user = \<lparr>au_id = ''doc-1'', au_email = Some ''doc1@example.org'',
     raw_user_meta_data = [''role'' \<mapsto> ''admin'']\<rparr>"

definition demo_db :: db where
  "demo_db =
     \<lparr>access_sessions =
        [\<lparr>session_id = ''ses-1'', doctor_id = ''doc-1'', patient_id = ''pat-1'', started_at = 10,
          ended_at = Some 20, status = Completed, session_notes = None, created_at = 10\<rparr>,
         \<lparr>session_id = ''ses-2'', doctor_id = ''doc-1'', patient_id = ''pat-2'', started_at = 20,
          ended_at = None, status = Active, session_notes = None, created_at = 20\<rparr>],
      patients =
        [demo_patient\<lparr>patient_pk := ''pat-1'', caretag_id := ''CT-1''\<rparr>,
         demo_patient\<lparr>patient_pk := ''pat-2'', caretag_id := ''CT-2''\<rparr>],
      user_roles = [\<lparr>user_id = ''doc-1'', role = Doctor\<rparr>],
      profiles = [\<lparr>profile_id = ''doc-1'', profile_full_name = Some ''doc1@example.org'',
                  profile_email = Some ''doc1@example.org''\<rparr>],
      audit_logs = []\<rparr>"


text \<open>\<open>demo_db\<close> with two administrators beside the doctor, and with one; and \<open>demo_db\<close>
  with, as its only session, an active one whose end timestamp 100 is set.\<close>

definition admin_db :: db where
  "admin_db = demo_db\<lparr>user_roles :=
     [\<lparr>user_id = ''doc-1'', role = Doctor\<rparr>, \<lparr>user_id = ''adm-1'', role = Admin\<rparr>,
      \<lparr>user_id = ''adm-2'', role = Admin\<rparr>]\<rparr>"

definition sole_admin_db :: db where
  "sole_admin_db = demo_db\<lparr>user_roles :=
     [\<lparr>user_id = ''doc-1'', role = Doctor\<rparr>, \<lparr>user_id = ''adm-1'', role = Admin\<rparr>]\<rparr>"

definition future_db :: db where
  "future_db = demo_db\<lparr>access_sessions :=
     [\<lparr>session_id = ''ses-2'', doctor_id = ''doc-1'', patient_id = ''pat-2'', started_at = 20,
       ended_at = Some 100, status = Active, session_notes = None, created_at = 20\<rparr>]\<rparr>"


text \<open>\<open>demo_db\<close> with notes stored on both sessions, and \<open>demo_db\<close> with, as its only
  session, an expired one.\<close>

definition notes_db :: db where
  "notes_db = demo_db\<lparr>access_sessions :=
     [\<lparr>session_id = ''ses-1'', doctor_id = ''doc-1'', patient_id = ''pat-1'', started_at = 10,
       ended_at = Some 20, status = Completed, session_notes = Some ''follow up in a week'',
       created_at = 10\<rparr>,
      \<lparr>session_id = ''ses-2'', doctor_id = ''doc-1'', patient_id = ''pat-2'', started_at = 20,
       ended_at = None, status = Active, session_notes = Some ''allergy noted'', created_at = 20\<rparr>]\<rparr>"

definition expired_db :: db where
  "expired_db = demo_db\<lparr>access_sessions :=
     [\<lparr>session_id = ''ses-1'', doctor_id = ''doc-1'', patient_id = ''pat-1'', started_at = 10,
       ended_at = Some 20, status = Expired, session_notes = None, created_at = 10\<rparr>]\<rparr>"


text \<open>The scan page opened from the card of patient \<^verbatim>\<open>pat-2\<close>:
  \<^verbatim>\<open>?expect=ct-2&id=pat-2\<close>.\<close>

definition expect_env :: scan_env where
  "expect_env = (demo_env ''pat-3'' ''ses-3'' 30)\<lparr>param_expect := Some ''ct-2'', param_id := Some ''pat-2''\<rparr>"






section \<open>Properties\<close>

subsection \<open>Updates of the session table\<close>




lemma close_active_fun:
  "(\<lambda>s. if rls_update_access_sessions (Some u) s \<and> (doctor_id s = u \<and> status s = Active)
         then s\<lparr>status := Completed, ended_at := Some t\<rparr> else s) = close_active u t"
proof
  fix s
  show "(if rls_update_access_sessions (Some u) s \<and> (doctor_id s = u \<and> status s = Active)
         then s\<lparr>status := Completed, ended_at := Some t\<rparr> else s) = close_active u t s"
  proof (cases "doctor_id s = u")
    case True
    then show ?thesis
      unfolding rls_update_access_sessions_def close_active_def by simp
  next
    case False
    then show ?thesis
      unfolding rls_update_access_sessions_def close_active_def by simp
  qed
qed

lemma update_close:
  "update_access_sessions (Some u) (\<lambda>s. doctor_id s = u \<and> status s = Active)
      (\<lambda>s. s\<lparr>status := Completed, ended_at := Some t\<rparr>) d
   = d\<lparr>access_sessions := map (close_active u t) (access_sessions d)\<rparr>"
  by (simp only: update_access_sessions_def close_active_fun)

lemma or_null_Some: "or_null x = Some u \<Longrightarrow> x = Some u"
  unfolding or_null_def by (simp split: option.splits if_splits)



lemma startSession_unauth:
  "or_null user = None \<Longrightarrow> startSession user pat cn dn nid d = (Inl Not_authenticated, d)"
  unfolding startSession_def by simp

lemma startSession_auth:
  assumes "or_null user = Some u"
  shows "startSession user pat cn dn nid d =
     (let d1 = d\<lparr>access_sessions := map (close_active u cn) (access_sessions d)\<rparr>
      in case insert_access_session (Some u) u pat Active nid dn d1 of
           Inl e \<Rightarrow> (Inl e, d1)
         | Inr (row, d2) \<Rightarrow> (Inr row, d2))"
proof -
  from assms have "user = Some u" by (rule or_null_Some)
  with assms show ?thesis
    unfolding startSession_def by (simp only: update_close option.case)
qed

lemma insert_access_session_Inr:
  assumes "insert_access_session auth doc pat st nid dn d = Inr (row, d')"
  shows "row = \<lparr>session_id = nid, doctor_id = doc, patient_id = pat, started_at = dn,
                 ended_at = None, status = st, session_notes = None, created_at = dn\<rparr>
         \<and> d' = d\<lparr>access_sessions := access_sessions d @ [row]\<rparr>
         \<and> auth = Some doc \<and> has_role d auth Doctor
         \<and> nid \<notin> set (map session_id (access_sessions d))
         \<and> pat \<in> set (map patient_pk (patients d))"
  using assms unfolding insert_access_session_def rls_insert_access_sessions_def Let_def
  by (auto split: if_splits)

lemma startSession_Inr:
  assumes "startSession user pat cn dn nid d = (Inr s, d')"
  shows "\<exists>u. user = Some u
          \<and> s = \<lparr>session_id = nid, doctor_id = u, patient_id = pat, started_at = dn,
                 ended_at = None, status = Active, session_notes = None, created_at = dn\<rparr>
          \<and> d' = d\<lparr>access_sessions := map (close_active u cn) (access_sessions d) @ [s]\<rparr>"
proof (cases "or_null user")
  case None
  with assms show ?thesis by (simp add: startSession_unauth)
next
  case (Some u)
  then have u: "user = Some u" by (rule or_null_Some)
  let ?d1 = "d\<lparr>access_sessions := map (close_active u cn) (access_sessions d)\<rparr>"
  from assms Some obtain row d2 where
    ins: "insert_access_session (Some u) u pat Active nid dn ?d1 = Inr (row, d2)"
    and res: "s = row" "d' = d2"
    by (auto simp: startSession_auth Let_def split: sum.splits)
  from insert_access_session_Inr [OF ins] res u show ?thesis by simp
qed


lemma active_append:
  "active_sessions_of D (d\<lparr>access_sessions := xs @ ys\<rparr>)
     = active_sessions_of D (d\<lparr>access_sessions := xs\<rparr>) @ active_sessions_of D (d\<lparr>access_sessions := ys\<rparr>)"
  unfolding active_sessions_of_def by simp



lemma start_and_navigate_snd:
  "snd (start_and_navigate env pid d)
     = snd (startSession (env_user env) pid (env_client_now env) (env_db_now env) (new_session_id env) d)"
  unfolding start_and_navigate_def by (simp split: prod.splits sum.splits)

lemma insert_patient_sessions:
  "insert_patient p nid d = Inr (row, d1) \<Longrightarrow> access_sessions d1 = access_sessions d"
  unfolding insert_patient_def Let_def by (auto split: if_splits)




lemma demo_db_eq:
  "demo_db = snd (processScannedId (demo_env ''pat-2'' ''ses-2'' 20) ''ct-2 ''
          (snd (processScannedId (demo_env ''pat-1'' ''ses-1'' 10) '' ct-1''
             (handle_new_user demo_user empty_db))))"
  by code_simp

lemma demo_db_serial: "serial_run empty_db demo_db"
  unfolding demo_db_eq by (intro s_scan s_new_user s_refl)

subsection \<open>The requests of \<^verbatim>\<open>startSession\<close>\<close>

lemma startSession_close_sessions:
  "startSession_close u t d = d\<lparr>access_sessions := map (close_active u t) (access_sessions d)\<rparr>"
  unfolding startSession_close_def by (rule update_close)

lemma startSession_insert_Inr:
  assumes "startSession_insert u pat dn nid d = Inr (row, d')"
  shows "row = \<lparr>session_id = nid, doctor_id = u, patient_id = pat, started_at = dn,
                 ended_at = None, status = Active, session_notes = None, created_at = dn\<rparr>"
    and "d' = d\<lparr>access_sessions := access_sessions d @ [row]\<rparr>"
  using insert_access_session_Inr [OF assms [unfolded startSession_insert_def]] by simp_all

lemma startSession_requests:
  assumes "or_null user = Some u"
  shows "startSession user pat cn dn nid d =
     (case startSession_insert u pat dn nid (startSession_close u cn d) of
        Inl e \<Rightarrow> (Inl e, startSession_close u cn d)
      | Inr (row, d2) \<Rightarrow> (Inr row, d2))"
  unfolding startSession_auth [OF assms] startSession_close_sessions startSession_insert_def Let_def
  by (rule refl)

lemma evolves_startSession:
  assumes "evolves d0 d"
  shows "evolves d0 (snd (startSession user pat cn dn nid d))"
proof (cases "or_null user")
  case None
  with assms show ?thesis by (simp add: startSession_unauth)
next
  case (Some u)
  have c: "evolves d0 (startSession_close u cn d)" using assms by (rule e_close)
  show ?thesis
  proof (cases "startSession_insert u pat dn nid (startSession_close u cn d)")
    case (Inl e)
    with c show ?thesis by (simp add: startSession_requests [OF Some])
  next
    case (Inr r)
    obtain row d2 where r: "r = (row, d2)" by (cases r)
    from c Inr [unfolded r] have "evolves d0 d2" by (rule e_insert)
    with Inr r show ?thesis by (simp add: startSession_requests [OF Some])
  qed
qed

lemma evolves_direct_scan:
  assumes "evolves d0 d"
  shows "evolves d0 (snd (direct_scan env sc d))"
proof (cases "select_patient_by_caretag sc d")
  case (Inl e)
  with assms show ?thesis by (simp add: direct_scan_def)
next
  case (Inr found)
  show ?thesis
  proof (cases found)
    case (Some p)
    with Inr assms show ?thesis
      by (simp add: direct_scan_def start_and_navigate_snd evolves_startSession)
  next
    case None
    show ?thesis
    proof (cases "insert_patient ((random_patient env)\<lparr>caretag_id := sc\<rparr>) (new_patient_id env) d")
      case (Inl e)
      with None Inr assms show ?thesis by (simp add: direct_scan_def)
    next
      case ins: (Inr r)
      obtain row d1 where r: "r = (row, d1)" by (cases r)
      from assms ins [unfolded r] have "evolves d0 d1" by (rule e_patient)
      then have "evolves d0 (snd (startSession (env_user env) (patient_pk row) (env_client_now env)
          (env_db_now env) (new_session_id env) d1))"
        by (rule evolves_startSession)
      with None Inr ins r show ?thesis
        by (simp add: direct_scan_def start_and_navigate_snd)
    qed
  qed
qed

lemma evolves_processScannedId:
  assumes "evolves d0 d"
  shows "evolves d0 (snd (processScannedId env tag d))"
  using assms unfolding processScannedId_def Let_def
  by (simp add: evolves_direct_scan start_and_navigate_snd evolves_startSession
      split: option.splits)

lemma serial_run_evolves: "serial_run d0 d \<Longrightarrow> evolves d0 d"
proof (induction rule: serial_run.induct)
  case s_refl
  show ?case by (rule e_refl)
next
  case (s_start d user pat client_now db_now new_id)
  then show ?case by (simp add: evolves_startSession)
next
  case (s_end d user sid notes_arg client_now)
  then show ?case by (simp add: e_end)
next
  case (s_scan d env tag)
  then show ?case by (simp add: evolves_processScannedId)
next
  case (s_new_user d NEW)
  then show ?case by (simp add: e_new_user)
next
  case (s_promote d auth target db_now d')
  then show ?case by (blast intro: e_promote)
next
  case (s_demote d auth target db_now d')
  then show ?case by (blast intro: e_demote)
qed


subsection \<open>One active session per doctor\<close>





subsection \<open>No active session carries an end timestamp\<close>

lemma all_open_close: "all_open xs \<Longrightarrow> all_open (map (close_active u t) xs)"
  unfolding all_open_def close_active_def by auto

lemma all_open_append: "all_open (xs @ ys) = (all_open xs \<and> all_open ys)"
  unfolding all_open_def by auto

lemma startSession_new_row:
  assumes "or_null user = Some u"
  shows "\<exists>new. access_sessions (snd (startSession user pat cn dn nid d))
           = map (close_active u cn) (access_sessions d) @ new
         \<and> (new = [] \<or> (\<exists>s. new = [s] \<and> status s = Active \<and> ended_at s = None))"
proof (cases "fst (startSession user pat cn dn nid d)")
  case (Inl e)
  with assms have "access_sessions (snd (startSession user pat cn dn nid d))
           = map (close_active u cn) (access_sessions d) @ []"
    by (auto simp: startSession_auth Let_def split: sum.splits)
  then show ?thesis by blast
next
  case (Inr s)
  then have "startSession user pat cn dn nid d = (Inr s, snd (startSession user pat cn dn nid d))"
    by (metis prod.collapse)
  from startSession_Inr [OF this] assms or_null_Some [OF assms]
  show ?thesis by auto
qed

lemma endSession_open:
  assumes "all_open (access_sessions d)"
  shows "all_open (access_sessions (snd (endSession user sid n t d)))"
  using assms unfolding endSession_def update_access_sessions_def all_open_def by auto

lemma evolves_open:
  "evolves d0 d \<Longrightarrow> all_open (access_sessions d0) \<Longrightarrow> all_open (access_sessions d)"
proof (induction rule: evolves.induct)
  case e_refl
  then show ?case .
next
  case (e_close d u client_now)
  then show ?case by (simp add: startSession_close_sessions all_open_close)
next
  case (e_insert d u pat db_now new_id row d')
  from startSession_insert_Inr [OF e_insert.hyps(2)]
  have "access_sessions d' = access_sessions d @ [row]" "status row = Active" "ended_at row = None"
    by simp_all
  with e_insert show ?case by (simp add: all_open_append) (simp add: all_open_def)
next
  case (e_end d user sid notes_arg client_now)
  then show ?case by (simp add: endSession_open)
next
  case (e_patient d p new_id prow d')
  then show ?case by (simp add: insert_patient_sessions)
next
  case (e_new_user d NEW)
  then show ?case by (simp add: handle_new_user_def)
next
  case (e_promote d auth target db_now d')
  then show ?case
    by (auto simp: promote_to_admin_def Let_def split: if_splits)
next
  case (e_demote d auth target db_now d')
  then show ?case
    by (auto simp: demote_from_admin_def Let_def split: if_splits)
qed

subsection \<open>The two active-session predicates\<close>

lemma has_active_session_usable:
  "has_active_session d db_now auth pat =
     (\<exists>s \<in> set (access_sessions d).
        Some (doctor_id s) = auth \<and> patient_id s = pat \<and> usable_session db_now s)"
  unfolding has_active_session_def usable_session_def
  by (auto split: option.splits)

lemma has_active_session_session_for:
  "has_active_session d db_now auth pat = session_for d db_now auth pat"
  unfolding session_for_def by (rule has_active_session_usable)

lemma activeSession_filter:
  assumes "D \<noteq> []" "P \<noteq> []"
  shows "activeSession (Some D) (Some P) d = maybe_single (filter (active_open D P) (access_sessions d))"
proof -
  have "(\<lambda>s. rls_select_access_sessions d (Some D) s \<and> doctor_id s = D \<and> patient_id s = P
                          \<and> status s = Active \<and> ended_at s = None) = active_open D P"
    by (rule ext) (auto simp: rls_select_access_sessions_def active_open_def)
  with assms show ?thesis
    unfolding activeSession_def or_null_def by simp
qed

lemma activeSession_empty:
  "D = [] \<or> P = [] \<Longrightarrow> activeSession (Some D) (Some P) d = Inr None"
  unfolding activeSession_def or_null_def by auto

lemma maybe_single_Some: "maybe_single xs = Inr (Some x) \<longleftrightarrow> xs = [x]"
  by (cases xs rule: maybe_single.cases) auto

lemma maybe_single_None: "maybe_single xs = Inr None \<longleftrightarrow> xs = []"
  by (cases xs rule: maybe_single.cases) auto

lemma maybe_single_short:
  "length xs \<le> Suc 0 \<Longrightarrow> (\<exists>x. maybe_single xs = Inr (Some x)) \<longleftrightarrow> xs \<noteq> []"
  by (cases xs rule: maybe_single.cases) auto

lemma filter_active_open_le:
  "length (filter (active_open D P) (access_sessions d)) \<le> length (active_sessions_of D d)"
proof -
  have "filter (active_open D P) (access_sessions d)
      = filter (active_open D P) (active_sessions_of D d)"
    unfolding active_sessions_of_def active_open_def by (auto intro: filter_cong)
  then show ?thesis by (simp add: length_filter_le)
qed

lemma open_has_active_session:
  assumes "all_open (access_sessions d)"
  shows "has_active_session d db_now (Some D) P
           \<longleftrightarrow> filter (active_open D P) (access_sessions d) \<noteq> []"
proof -
  have "filter (active_open D P) (access_sessions d) \<noteq> []
          \<longleftrightarrow> (\<exists>s \<in> set (access_sessions d). active_open D P s)"
    by (simp add: filter_empty_conv)
  also have "\<dots> \<longleftrightarrow> has_active_session d db_now (Some D) P"
    using assms unfolding has_active_session_def active_open_def all_open_def
    by (auto split: option.splits)
  finally show ?thesis by simp
qed

lemma open_agree:
  assumes o: "all_open (access_sessions d)" and D: "D \<noteq> []" and P: "P \<noteq> []"
  shows "has_active_session d db_now (Some D) P
           \<longleftrightarrow> activeSession (Some D) (Some P) d \<noteq> Inr None"
  by (simp add: open_has_active_session [OF o] activeSession_filter [OF D P] maybe_single_None)

lemma open_single_agree:
  assumes o: "all_open (access_sessions d)" and l: "length (active_sessions_of D d) \<le> Suc 0"
    and D: "D \<noteq> []" and P: "P \<noteq> []"
  shows "has_active_session d db_now (Some D) P
           \<longleftrightarrow> (\<exists>s. activeSession (Some D) (Some P) d = Inr (Some s))"
proof -
  have "length (filter (active_open D P) (access_sessions d)) \<le> Suc 0"
    using filter_active_open_le [of D P d] l by simp
  then show ?thesis
    by (simp add: open_has_active_session [OF o] activeSession_filter [OF D P] maybe_single_short)
qed

text \<open>
  Claim C3, as stated, fails: in \<open>future_db\<close> the doctor's session is active with an end
  timestamp in the future (100, at time 50). The server-side predicate holds, as the claim
  says it should; the client-side query, which asks for \<^verbatim>\<open>ended_at IS NULL\<close>, returns
  no session.
\<close>

theorem active_session_counterexample:
  "has_active_session future_db 50 (Some ''doc-1'') ''pat-2''
   \<and> session_for future_db 50 (Some ''doc-1'') ''pat-2''
   \<and> activeSession (Some ''doc-1'') (Some ''pat-2'') future_db = Inr None"
  by (simp add: has_active_session_def session_for_def usable_session_def activeSession_def
      future_db_def demo_db_def or_null_def rls_select_access_sessions_def)

text \<open>
  Claim C3, amended. The server-side predicate \<^verbatim>\<open>has_active_session\<close> decides exactly
  the spec's condition: a session of this doctor and patient with status active and end
  timestamp unset or in the future. The client-side query returns a session of this doctor
  and patient with status active and end timestamp unset (such a session is usable), and
  returns none exactly when there is no such session; it does not accept an end timestamp
  in the future. No request of the program gives an active session an end timestamp. In a
  store where no active session has one, the server-side predicate holds exactly when the
  client-side query does not return none (it returns the session, or fails when several
  rows match); where, besides, the doctor has at most one active session, it holds exactly
  when the query returns a session.
\<close>

theorem active_session_predicates:
  "has_active_session d db_now (Some D) P = session_for d db_now (Some D) P
   \<and> (activeSession (Some D) (Some P) d = Inr (Some s) \<longrightarrow>
        s \<in> set (access_sessions d) \<and> doctor_id s = D \<and> patient_id s = P
        \<and> status s = Active \<and> ended_at s = None \<and> usable_session db_now s)
   \<and> (D \<noteq> [] \<and> P \<noteq> [] \<longrightarrow>
        (activeSession (Some D) (Some P) d = Inr None) =
        (\<not> (\<exists>x \<in> set (access_sessions d). doctor_id x = D \<and> patient_id x = P
                \<and> status x = Active \<and> ended_at x = None)))
   \<and> (evolves d0 d \<and> all_open (access_sessions d0) \<longrightarrow> all_open (access_sessions d))
   \<and> all_open (access_sessions empty_db)
   \<and> (all_open (access_sessions d) \<and> D \<noteq> [] \<and> P \<noteq> [] \<longrightarrow>
        has_active_session d db_now (Some D) P
          = (activeSession (Some D) (Some P) d \<noteq> Inr None))
   \<and> (all_open (access_sessions d) \<and> length (active_sessions_of D d) \<le> 1
        \<and> D \<noteq> [] \<and> P \<noteq> [] \<longrightarrow>
        has_active_session d db_now (Some D) P
          = (\<exists>x. activeSession (Some D) (Some P) d = Inr (Some x)))"
proof (intro conjI impI)
  show "has_active_session d db_now (Some D) P = session_for d db_now (Some D) P"
    by (rule has_active_session_session_for)
next
  assume a: "activeSession (Some D) (Some P) d = Inr (Some s)"
  have ne: "D \<noteq> [] \<and> P \<noteq> []"
  proof (rule ccontr)
    assume "\<not> (D \<noteq> [] \<and> P \<noteq> [])"
    then have "activeSession (Some D) (Some P) d = Inr None" by (simp add: activeSession_empty)
    with a show False by simp
  qed
  with a have "filter (active_open D P) (access_sessions d) = [s]"
    by (simp add: activeSession_filter maybe_single_Some)
  then have "s \<in> set (filter (active_open D P) (access_sessions d))" by simp
  then have s: "s \<in> set (access_sessions d)" "active_open D P s" by simp_all
  then show "s \<in> set (access_sessions d)" "doctor_id s = D" "patient_id s = P"
    "status s = Active" "ended_at s = None" "usable_session db_now s"
    by (simp_all add: active_open_def usable_session_def)
next
  assume "D \<noteq> [] \<and> P \<noteq> []"
  then show "(activeSession (Some D) (Some P) d = Inr None) =
        (\<not> (\<exists>x \<in> set (access_sessions d). doctor_id x = D \<and> patient_id x = P
                \<and> status x = Active \<and> ended_at x = None))"
    by (simp add: activeSession_filter maybe_single_None filter_empty_conv active_open_def)
next
  assume "evolves d0 d \<and> all_open (access_sessions d0)"
  then show "all_open (access_sessions d)" by (blast intro: evolves_open)
next
  show "all_open (access_sessions empty_db)" by (simp add: all_open_def empty_db_def)
next
  assume "all_open (access_sessions d) \<and> D \<noteq> [] \<and> P \<noteq> []"
  then show "has_active_session d db_now (Some D) P
          = (activeSession (Some D) (Some P) d \<noteq> Inr None)"
    by (simp add: open_agree)
next
  assume "all_open (access_sessions d) \<and> length (active_sessions_of D d) \<le> 1
        \<and> D \<noteq> [] \<and> P \<noteq> []"
  then show "has_active_session d db_now (Some D) P
          = (\<exists>x. activeSession (Some D) (Some P) d = Inr (Some x))"
    by (simp add: open_single_agree)
qed

theorem active_session_predicates_witness:
  "evolves empty_db demo_db
   \<and> all_open (access_sessions demo_db)
   \<and> has_active_session demo_db 25 (Some ''doc-1'') ''pat-2''
   \<and> activeSession (Some ''doc-1'') (Some ''pat-2'') demo_db
        = Inr (Some (access_sessions demo_db ! 1))
   \<and> usable_session 25 (access_sessions demo_db ! 1)
   \<and> \<not> has_active_session demo_db 25 (Some ''doc-1'') ''pat-1''
   \<and> activeSession (Some ''doc-1'') (Some ''pat-1'') demo_db = Inr None"
proof -
  let ?s = "access_sessions demo_db ! 1"
  note t2 = active_session_predicates [where d = demo_db and db_now = 25 and D = "''doc-1''"
      and P = "''pat-2''" and s = ?s and ?d0.0 = empty_db]
  note t1 = active_session_predicates [where d = demo_db and db_now = 25 and D = "''doc-1''"
      and P = "''pat-1''" and s = ?s and ?d0.0 = empty_db]
  have ev: "evolves empty_db demo_db" using demo_db_serial by (rule serial_run_evolves)
  have eo: "all_open (access_sessions empty_db)"
    using t2 [THEN conjunct2, THEN conjunct2, THEN conjunct2, THEN conjunct2, THEN conjunct1] .
  have o: "all_open (access_sessions demo_db)"
    using t2 [THEN conjunct2, THEN conjunct2, THEN conjunct2, THEN conjunct1] conjI [OF ev eo]
    by (rule mp)
  have l: "length (active_sessions_of ''doc-1'' demo_db) \<le> 1" by code_simp
  have ne2: "''doc-1'' \<noteq> [] \<and> ''pat-2'' \<noteq> []" and ne1: "''doc-1'' \<noteq> [] \<and> ''pat-1'' \<noteq> []"
    by simp_all
  have a: "activeSession (Some ''doc-1'') (Some ''pat-2'') demo_db = Inr (Some ?s)" by code_simp
  have n: "activeSession (Some ''doc-1'') (Some ''pat-1'') demo_db = Inr None" by code_simp
  have "?s \<in> set (access_sessions demo_db) \<and> doctor_id ?s = ''doc-1'' \<and> patient_id ?s = ''pat-2''
        \<and> status ?s = Active \<and> ended_at ?s = None \<and> usable_session 25 ?s"
    using t2 [THEN conjunct2, THEN conjunct1] a by (rule mp)
  then have u: "usable_session 25 ?s" by (elim conjE)
  have "has_active_session demo_db 25 (Some ''doc-1'') ''pat-2''
          = (\<exists>x. activeSession (Some ''doc-1'') (Some ''pat-2'') demo_db = Inr (Some x))"
    using t2 [THEN conjunct2, THEN conjunct2, THEN conjunct2, THEN conjunct2, THEN conjunct2,
        THEN conjunct2] conjI [OF o conjI [OF l ne2]]
    by (rule mp)
  then have h2: "has_active_session demo_db 25 (Some ''doc-1'') ''pat-2''"
    using a by (simp only: exI [of _ ?s])
  have "has_active_session demo_db 25 (Some ''doc-1'') ''pat-1''
          = (activeSession (Some ''doc-1'') (Some ''pat-1'') demo_db \<noteq> Inr None)"
    using t1 [THEN conjunct2, THEN conjunct2, THEN conjunct2, THEN conjunct2, THEN conjunct2,
        THEN conjunct1] conjI [OF o ne1]
    by (rule mp)
  then have h1: "\<not> has_active_session demo_db 25 (Some ''doc-1'') ''pat-1''"
    using n by simp
  from ev o h2 a u h1 n show ?thesis by (intro conjI)
qed


subsection \<open>Reading sensitive records\<close>

text \<open>
  Claim C2, as stated, fails in its last clause: a doctor without a session for the
  patient is not answered with an error. The read succeeds and the record is left out of
  the result.
\<close>

theorem read_sensitive_counterexample:
  "\<not> has_role demo_db (Some ''doc-1'') Admin
   \<and> has_role demo_db (Some ''doc-1'') Doctor
   \<and> \<not> session_for demo_db 25 (Some ''doc-1'') ''pat-1''
   \<and> read_sensitive Medical_records demo_db 25 (Some ''doc-1'')
        [\<lparr>rec_patient_id = ''pat-1'', rec_doctor_id = Some ''doc-1''\<rparr>] = Inr []"
  by code_simp

text \<open>
  Claim C2, amended. A read of sensitive records (in any of the five tables) by the user
  \<open>U\<close> succeeds and returns, of the records it asks for, exactly those that the policy
  admits: with role admin every record, whatever the sessions are; with role doctor (and
  not admin) the records of the patients \<open>P\<close> with whom \<open>U\<close> has a usable active session;
  otherwise none. A record that is not admitted is withheld without an error.
\<close>

theorem read_sensitive_decision:
  "select_policy t d db_now auth r =
     (if has_role d auth Admin then True
      else if has_role d auth Doctor
        then (\<exists>s \<in> set (access_sessions d).
                Some (doctor_id s) = auth \<and> patient_id s = rec_patient_id r
                \<and> usable_session db_now s)
      else False)
   \<and> read_sensitive t d db_now auth rows =
       Inr (filter (\<lambda>r. if has_role d auth Admin then True
                         else if has_role d auth Doctor
                           then session_for d db_now auth (rec_patient_id r)
                         else False) rows)"
proof
  show p: "select_policy t d db_now auth r =
     (if has_role d auth Admin then True
      else if has_role d auth Doctor
        then (\<exists>s \<in> set (access_sessions d).
                Some (doctor_id s) = auth \<and> patient_id s = rec_patient_id r
                \<and> usable_session db_now s)
      else False)" for r
    by (cases t) (simp_all add: has_active_session_usable)
  have "select_policy t d db_now auth =
     (\<lambda>r. if has_role d auth Admin then True
           else if has_role d auth Doctor then session_for d db_now auth (rec_patient_id r)
           else False)"
    by (rule ext) (simp add: p session_for_def)
  then show "read_sensitive t d db_now auth rows =
       Inr (filter (\<lambda>r. if has_role d auth Admin then True
                         else if has_role d auth Doctor
                           then session_for d db_now auth (rec_patient_id r)
                         else False) rows)"
    by (simp add: read_sensitive_def)
qed

theorem read_sensitive_decision_witness:
  "read_sensitive Medical_records admin_db 25 (Some ''adm-1'')
      [\<lparr>rec_patient_id = ''pat-1'', rec_doctor_id = Some ''doc-1''\<rparr>,
       \<lparr>rec_patient_id = ''pat-2'', rec_doctor_id = Some ''doc-1''\<rparr>]
    = Inr [\<lparr>rec_patient_id = ''pat-1'', rec_doctor_id = Some ''doc-1''\<rparr>,
           \<lparr>rec_patient_id = ''pat-2'', rec_doctor_id = Some ''doc-1''\<rparr>]
   \<and> read_sensitive Vitals admin_db 25 (Some ''doc-1'')
      [\<lparr>rec_patient_id = ''pat-1'', rec_doctor_id = None\<rparr>,
       \<lparr>rec_patient_id = ''pat-2'', rec_doctor_id = None\<rparr>]
    = Inr [\<lparr>rec_patient_id = ''pat-2'', rec_doctor_id = None\<rparr>]
   \<and> read_sensitive Prescriptions admin_db 25 (Some ''doc-7'')
      [\<lparr>rec_patient_id = ''pat-2'', rec_doctor_id = None\<rparr>] = Inr []"
proof -
  have a: "has_role admin_db (Some ''adm-1'') Admin" by code_simp
  have b: "\<not> has_role admin_db (Some ''doc-1'') Admin" "has_role admin_db (Some ''doc-1'') Doctor"
    by code_simp+
  have c: "\<not> has_role admin_db (Some ''doc-7'') Admin" "\<not> has_role admin_db (Some ''doc-7'') Doctor"
    by code_simp+
  have s2: "session_for admin_db 25 (Some ''doc-1'') ''pat-2''" by code_simp
  have s1: "\<not> session_for admin_db 25 (Some ''doc-1'') ''pat-1''" by code_simp
  have 1: "read_sensitive Medical_records admin_db 25 (Some ''adm-1'')
      [\<lparr>rec_patient_id = ''pat-1'', rec_doctor_id = Some ''doc-1''\<rparr>,
       \<lparr>rec_patient_id = ''pat-2'', rec_doctor_id = Some ''doc-1''\<rparr>]
    = Inr [\<lparr>rec_patient_id = ''pat-1'', rec_doctor_id = Some ''doc-1''\<rparr>,
           \<lparr>rec_patient_id = ''pat-2'', rec_doctor_id = Some ''doc-1''\<rparr>]"
    unfolding read_sensitive_decision [THEN conjunct2] by (simp add: a)
  have 2: "read_sensitive Vitals admin_db 25 (Some ''doc-1'')
      [\<lparr>rec_patient_id = ''pat-1'', rec_doctor_id = None\<rparr>,
       \<lparr>rec_patient_id = ''pat-2'', rec_doctor_id = None\<rparr>]
    = Inr [\<lparr>rec_patient_id = ''pat-2'', rec_doctor_id = None\<rparr>]"
    unfolding read_sensitive_decision [THEN conjunct2] by (simp add: b s1 s2)
  have 3: "read_sensitive Prescriptions admin_db 25 (Some ''doc-7'')
      [\<lparr>rec_patient_id = ''pat-2'', rec_doctor_id = None\<rparr>] = Inr []"
    unfolding read_sensitive_decision [THEN conjunct2] by (simp add: c)
  from 1 2 3 show ?thesis by (intro conjI)
qed

subsection \<open>Writing sensitive records\<close>

lemma insert_policy_select_policy:
  "insert_policy t d db_now auth r \<Longrightarrow> select_policy t d db_now auth r"
  by (cases t) simp_all

lemma update_using_condition:
  "update_using t d db_now auth r =
     (if t = Vitals then None
      else Some ((if t = Medical_records \<or> t = Prescriptions
                  then sql_eq (rec_doctor_id r) auth else has_role d auth Doctor)
                 \<and> session_for d db_now auth (rec_patient_id r)))"
  by (cases t) (simp_all add: has_active_session_session_for)

lemma select_policy_session_for:
  "select_policy t d db_now auth r =
     (has_role d auth Admin
      \<or> (has_role d auth Doctor \<and> session_for d db_now auth (rec_patient_id r)))"
  by (cases t) (simp_all add: has_active_session_session_for)

lemma update_row_condition:
  assumes "t \<noteq> Vitals" "update_using t d db_now auth r = Some v"
  shows "(v \<and> (reads \<longrightarrow> select_policy t d db_now auth r))
           = update_condition t d db_now auth reads r"
  using assms unfolding update_using_condition select_policy_session_for update_condition_def
  by (cases t) auto

text \<open>
  Claim C4, as stated, fails: the insert policy of \<^verbatim>\<open>vitals\<close> admits a row whose doctor
  field is another user, since it does not read that field.
\<close>

theorem write_policies_counterexample:
  "insert_policy Vitals demo_db 25 (Some ''doc-1'')
     \<lparr>rec_patient_id = ''pat-2'', rec_doctor_id = Some ''doc-9''\<rparr>
   \<and> \<not> (has_role demo_db (Some ''doc-1'') Doctor
        \<and> rec_doctor_id \<lparr>rec_patient_id = ''pat-2'', rec_doctor_id = Some ''doc-9''\<rparr>
            = Some ''doc-1''
        \<and> session_for demo_db 25 (Some ''doc-1'') ''pat-2'')"
  by (simp add: has_role_def has_active_session_def demo_db_def)

text \<open>
  Claim C4, amended. An insert of a sensitive record of patient \<open>P\<close> by the user \<open>U\<close> is
  allowed if and only if a usable active session exists for \<open>U\<close> and \<open>P\<close>, \<open>U\<close> has role
  doctor and, on medical records and prescriptions only, the record's doctor field equals
  \<open>U\<close> (the read policy asks nothing more of an inserted row). An update is decided on
  the stored row and on the new row, by the same condition: a usable active session for
  \<open>U\<close> and the row's patient and, on medical records and prescriptions, the row's doctor
  field equals \<open>U\<close> (and, when the update reads the table, \<open>U\<close> has role doctor or admin),
  on lab results and emergency records, \<open>U\<close> has role doctor. A stored row that fails the
  condition is skipped without an error, a new row that fails it is refused with an
  error, and otherwise the row is updated. The migrations define no update policy for
  vitals.
\<close>

theorem write_policies:
  "insert_policy t d db_now auth r =
     (has_role d auth Doctor
      \<and> (if t = Medical_records \<or> t = Prescriptions then sql_eq (rec_doctor_id r) auth else True)
      \<and> session_for d db_now auth (rec_patient_id r))
   \<and> (insert_policy t d db_now auth r \<longrightarrow> select_policy t d db_now auth r)
   \<and> update_sensitive t d db_now auth reads old new =
     (if t = Vitals then None
      else Some (if \<not> update_condition t d db_now auth reads old then Inr Row_skipped
                 else if \<not> update_condition t d db_now auth reads new
                   then Inl Row_level_security_violation
                 else Inr Row_updated))"
proof (intro conjI impI)
  show "insert_policy t d db_now auth r =
     (has_role d auth Doctor
      \<and> (if t = Medical_records \<or> t = Prescriptions then sql_eq (rec_doctor_id r) auth else True)
      \<and> session_for d db_now auth (rec_patient_id r))"
    by (cases t) (simp_all add: has_active_session_session_for)
next
  assume "insert_policy t d db_now auth r"
  then show "select_policy t d db_now auth r" by (rule insert_policy_select_policy)
next
  show "update_sensitive t d db_now auth reads old new =
     (if t = Vitals then None
      else Some (if \<not> update_condition t d db_now auth reads old then Inr Row_skipped
                 else if \<not> update_condition t d db_now auth reads new
                   then Inl Row_level_security_violation
                 else Inr Row_updated))"
  proof (cases "t = Vitals")
    case True
    then show ?thesis by (simp add: update_sensitive_def)
  next
    case False
    then obtain vo vn where vo: "update_using t d db_now auth old = Some vo"
      and vn: "update_using t d db_now auth new = Some vn"
      by (cases t) simp_all
    have o: "(vo \<and> (reads \<longrightarrow> select_policy t d db_now auth old))
           = update_condition t d db_now auth reads old"
      using False vo by (rule update_row_condition)
    have n: "(vn \<and> (reads \<longrightarrow> select_policy t d db_now auth new))
           = update_condition t d db_now auth reads new"
      using False vn by (rule update_row_condition)
    show ?thesis
      unfolding update_sensitive_def vo vn using False by (simp only: o n prod.case option.case if_False)
  qed
qed


theorem write_policies_witness:
  "insert_policy Medical_records demo_db 25 (Some ''doc-1'')
     \<lparr>rec_patient_id = ''pat-2'', rec_doctor_id = Some ''doc-1''\<rparr>
   \<and> \<not> insert_policy Prescriptions demo_db 25 (Some ''doc-1'')
     \<lparr>rec_patient_id = ''pat-2'', rec_doctor_id = Some ''doc-9''\<rparr>
   \<and> insert_policy Lab_results demo_db 25 (Some ''doc-1'')
     \<lparr>rec_patient_id = ''pat-2'', rec_doctor_id = None\<rparr>
   \<and> select_policy Lab_results demo_db 25 (Some ''doc-1'')
     \<lparr>rec_patient_id = ''pat-2'', rec_doctor_id = None\<rparr>
   \<and> update_sensitive Medical_records demo_db 25 (Some ''doc-1'') True
     \<lparr>rec_patient_id = ''pat-2'', rec_doctor_id = Some ''doc-1''\<rparr>
     \<lparr>rec_patient_id = ''pat-2'', rec_doctor_id = Some ''doc-1''\<rparr> = Some (Inr Row_updated)
   \<and> update_sensitive Medical_records demo_db 25 (Some ''doc-1'') True
     \<lparr>rec_patient_id = ''pat-2'', rec_doctor_id = Some ''doc-1''\<rparr>
     \<lparr>rec_patient_id = ''pat-1'', rec_doctor_id = Some ''doc-1''\<rparr>
       = Some (Inl Row_level_security_violation)
   \<and> update_sensitive Lab_results demo_db 25 (Some ''doc-1'') False
     \<lparr>rec_patient_id = ''pat-1'', rec_doctor_id = None\<rparr>
     \<lparr>rec_patient_id = ''pat-2'', rec_doctor_id = None\<rparr> = Some (Inr Row_skipped)
   \<and> update_sensitive Vitals demo_db 25 (Some ''doc-1'') True
     \<lparr>rec_patient_id = ''pat-2'', rec_doctor_id = Some ''doc-1''\<rparr>
     \<lparr>rec_patient_id = ''pat-2'', rec_doctor_id = Some ''doc-1''\<rparr> = None"
proof -
  let ?r2 = "\<lparr>rec_patient_id = ''pat-2'', rec_doctor_id = Some ''doc-1''\<rparr>"
  let ?r1 = "\<lparr>rec_patient_id = ''pat-1'', rec_doctor_id = Some ''doc-1''\<rparr>"
  let ?l2 = "\<lparr>rec_patient_id = ''pat-2'', rec_doctor_id = None\<rparr>"
  let ?l1 = "\<lparr>rec_patient_id = ''pat-1'', rec_doctor_id = None\<rparr>"
  have c2: "update_condition Medical_records demo_db 25 (Some ''doc-1'') True ?r2" by code_simp
  have c1: "\<not> update_condition Medical_records demo_db 25 (Some ''doc-1'') True ?r1" by code_simp
  have k1: "\<not> update_condition Lab_results demo_db 25 (Some ''doc-1'') False ?l1" by code_simp
  have i1: "insert_policy Medical_records demo_db 25 (Some ''doc-1'') ?r2" by code_simp
  have i2: "\<not> insert_policy Prescriptions demo_db 25 (Some ''doc-1'')
     \<lparr>rec_patient_id = ''pat-2'', rec_doctor_id = Some ''doc-9''\<rparr>" by code_simp
  have i3: "insert_policy Lab_results demo_db 25 (Some ''doc-1'') ?l2" by code_simp
  have i4: "select_policy Lab_results demo_db 25 (Some ''doc-1'') ?l2"
    using write_policies [where t = Lab_results and d = demo_db and db_now = 25
        and auth = "Some ''doc-1''" and r = ?l2, THEN conjunct2, THEN conjunct1] i3
    by (rule mp)
  have u1: "update_sensitive Medical_records demo_db 25 (Some ''doc-1'') True ?r2 ?r2
      = Some (Inr Row_updated)"
    unfolding write_policies [THEN conjunct2, THEN conjunct2] by (simp add: c2)
  have u2: "update_sensitive Medical_records demo_db 25 (Some ''doc-1'') True ?r2 ?r1
      = Some (Inl Row_level_security_violation)"
    unfolding write_policies [THEN conjunct2, THEN conjunct2] by (simp add: c2 c1)
  have u3: "update_sensitive Lab_results demo_db 25 (Some ''doc-1'') False ?l1 ?l2
      = Some (Inr Row_skipped)"
    unfolding write_policies [THEN conjunct2, THEN conjunct2] by (simp add: k1)
  have u4: "update_sensitive Vitals demo_db 25 (Some ''doc-1'') True ?r2 ?r2 = None"
    unfolding write_policies [THEN conjunct2, THEN conjunct2] by simp
  from i1 i2 i3 i4 u1 u2 u3 u4 show ?thesis by (intro conjI)
qed


subsection \<open>The role of a new account\<close>

text \<open>
  Claim C5. On the creation of an account, \<^verbatim>\<open>handle_new_user\<close> stores for the new
  user one more role row, with role doctor, whatever the signup payload holds; the role
  table after the call does not depend on the payload.
\<close>

theorem handle_new_user_role:
  "user_roles (handle_new_user NEW d) = user_roles d @ [\<lparr>user_id = au_id NEW, role = Doctor\<rparr>]
   \<and> roles_of (au_id NEW) (handle_new_user NEW d) = roles_of (au_id NEW) d @ [Doctor]
   \<and> has_role (handle_new_user NEW d) (Some (au_id NEW)) Doctor
   \<and> has_role (handle_new_user NEW d) (Some (au_id NEW)) Admin
        = has_role d (Some (au_id NEW)) Admin
   \<and> user_roles (handle_new_user (NEW\<lparr>raw_user_meta_data := payload\<rparr>) d)
        = user_roles (handle_new_user NEW d)"
  by (simp add: handle_new_user_def roles_of_def has_role_def)

theorem handle_new_user_role_witness:
  "raw_user_meta_data demo_user ''role'' = Some ''admin''
   \<and> roles_of ''doc-1'' (handle_new_user demo_user empty_db) = [Doctor]
   \<and> \<not> has_role (handle_new_user demo_user empty_db) (Some ''doc-1'') Admin"
proof -
  have "roles_of ''doc-1'' empty_db = []" by (simp add: roles_of_def empty_db_def)
  moreover have "au_id demo_user = ''doc-1''" by (simp add: demo_user_def)
  moreover have "user_roles empty_db = []" by (simp add: empty_db_def)
  ultimately show ?thesis
    using handle_new_user_role [of demo_user empty_db Map.empty]
    by (simp add: has_role_def demo_user_def)
qed

subsection \<open>Demotion\<close>

lemma demote_Inr:
  assumes "demote_from_admin auth target db_now d = Inr d'"
  shows "has_role d auth Admin" "auth \<noteq> Some target"
    "d' = d\<lparr>user_roles :=
                  map (\<lambda>row. if user_id row = target \<and> role row = Admin
                              then row\<lparr>role := Doctor\<rparr> else row)
                    (user_roles d),
                audit_logs := audit_logs d @
                  [\<lparr>actor_id = auth, action = ''DEMOTE_FROM_ADMIN'',
                    entity_type = ''user_roles'', entity_id = target,
                    details = [(''demoted_user_id'', JText target),
                               (''demoted_by'', (case auth of None \<Rightarrow> JNull | Some a \<Rightarrow> JText a)),
                               (''demoted_at'', JTime db_now)]\<rparr>]\<rparr>"
  using assms unfolding demote_from_admin_def by (auto split: if_splits)

lemma roles_of_demote_target:
  "roles_of target (d\<lparr>user_roles :=
        map (\<lambda>row. if user_id row = target \<and> role row = Admin then row\<lparr>role := Doctor\<rparr> else row) rows\<rparr>)
   = map (\<lambda>r. if r = Admin then Doctor else r) (roles_of target (d\<lparr>user_roles := rows\<rparr>))"
  unfolding roles_of_def by (induction rows) auto

lemma roles_of_demote_other:
  "u \<noteq> target \<Longrightarrow> roles_of u (d\<lparr>user_roles :=
        map (\<lambda>row. if user_id row = target \<and> role row = Admin then row\<lparr>role := Doctor\<rparr> else row) rows\<rparr>)
   = roles_of u (d\<lparr>user_roles := rows\<rparr>)"
  unfolding roles_of_def by (induction rows) auto

lemma roles_of_cong: "user_roles d = user_roles d' \<Longrightarrow> roles_of u d = roles_of u d'"
  unfolding roles_of_def by simp

text \<open>
  Claim C8. \<^verbatim>\<open>demote_from_admin(target)\<close> fails with \<^verbatim>\<open>'Only admins can demote users'\<close>
  (the spec's Forbidden) unless the caller holds role admin; for a caller who holds it,
  it fails with \<^verbatim>\<open>'Cannot demote yourself'\<close> (the spec's InvalidOperation) when the target
  is the caller, whatever other admins there are; otherwise it succeeds. When it
  succeeds, every role admin of the target has become doctor and its other roles and the
  roles of every other user are unchanged, and one audit row is appended that records the
  caller and the target.
\<close>

theorem demote_from_admin_contract:
  "(\<not> has_role d auth Admin \<longrightarrow>
      demote_from_admin auth target db_now d = Inl Only_admins_can_demote)
   \<and> (has_role d auth Admin \<and> auth = Some target \<longrightarrow>
      demote_from_admin auth target db_now d = Inl Cannot_demote_yourself)
   \<and> (has_role d auth Admin \<and> auth \<noteq> Some target \<longrightarrow>
      (\<exists>d'. demote_from_admin auth target db_now d = Inr d'))
   \<and> (demote_from_admin auth target db_now d = Inr d' \<longrightarrow>
        roles_of target d' = map (\<lambda>r. if r = Admin then Doctor else r) (roles_of target d)
      \<and> (\<forall>u. u \<noteq> target \<longrightarrow> roles_of u d' = roles_of u d)
      \<and> (\<exists>entry. audit_logs d' = audit_logs d @ [entry] \<and> actor_id entry = auth
            \<and> entity_id entry = target \<and> action entry = ''DEMOTE_FROM_ADMIN'')
      \<and> access_sessions d' = access_sessions d \<and> patients d' = patients d
      \<and> profiles d' = profiles d)"
proof (intro conjI impI)
  assume "\<not> has_role d auth Admin"
  then show "demote_from_admin auth target db_now d = Inl Only_admins_can_demote"
    by (simp add: demote_from_admin_def)
next
  assume "has_role d auth Admin \<and> auth = Some target"
  then show "demote_from_admin auth target db_now d = Inl Cannot_demote_yourself"
    by (auto simp: demote_from_admin_def)
next
  assume "has_role d auth Admin \<and> auth \<noteq> Some target"
  then show "\<exists>d'. demote_from_admin auth target db_now d = Inr d'"
    by (auto simp: demote_from_admin_def)
next
  assume ok: "demote_from_admin auth target db_now d = Inr d'"
  note d' = demote_Inr(3) [OF ok]
  have ur: "user_roles d' = map (\<lambda>row. if user_id row = target \<and> role row = Admin
                              then row\<lparr>role := Doctor\<rparr> else row) (user_roles d)"
    by (subst d') simp
  have "roles_of target d' = roles_of target (d\<lparr>user_roles := map (\<lambda>row. if user_id row = target \<and> role row = Admin
                              then row\<lparr>role := Doctor\<rparr> else row) (user_roles d)\<rparr>)"
    by (rule roles_of_cong) (simp add: ur)
  also have "\<dots> = map (\<lambda>r. if r = Admin then Doctor else r) (roles_of target (d\<lparr>user_roles := user_roles d\<rparr>))"
    by (rule roles_of_demote_target)
  finally show "roles_of target d' = map (\<lambda>r. if r = Admin then Doctor else r) (roles_of target d)"
    by simp
  show "\<forall>u. u \<noteq> target \<longrightarrow> roles_of u d' = roles_of u d"
  proof (intro allI impI)
    fix u :: uuid assume u: "u \<noteq> target"
    have "roles_of u d' = roles_of u (d\<lparr>user_roles := map (\<lambda>row. if user_id row = target \<and> role row = Admin
                              then row\<lparr>role := Doctor\<rparr> else row) (user_roles d)\<rparr>)"
      by (rule roles_of_cong) (simp add: ur)
    also have "\<dots> = roles_of u (d\<lparr>user_roles := user_roles d\<rparr>)"
      using u by (rule roles_of_demote_other)
    finally show "roles_of u d' = roles_of u d" by simp
  qed
  show "\<exists>entry. audit_logs d' = audit_logs d @ [entry] \<and> actor_id entry = auth
            \<and> entity_id entry = target \<and> action entry = ''DEMOTE_FROM_ADMIN''"
    by (subst d') simp
  show "access_sessions d' = access_sessions d" by (subst d') simp
  show "patients d' = patients d" by (subst d') simp
  show "profiles d' = profiles d" by (subst d') simp
qed

theorem demote_from_admin_contract_witness:
  "\<not> has_role admin_db (Some ''doc-1'') Admin
   \<and> demote_from_admin (Some ''doc-1'') ''adm-1'' 50 admin_db = Inl Only_admins_can_demote
   \<and> roles_of ''adm-1'' sole_admin_db = [Admin]
   \<and> demote_from_admin (Some ''adm-1'') ''adm-1'' 50 sole_admin_db = Inl Cannot_demote_yourself
   \<and> (\<exists>d'. demote_from_admin (Some ''adm-1'') ''adm-2'' 50 admin_db = Inr d'
          \<and> roles_of ''adm-2'' d' = [Doctor] \<and> roles_of ''adm-1'' d' = [Admin]
          \<and> length (audit_logs d') = Suc (length (audit_logs admin_db)))
   \<and> (\<exists>d'. demote_from_admin (Some ''adm-1'') ''doc-1'' 50 admin_db = Inr d'
          \<and> roles_of ''doc-1'' d' = [Doctor])"
proof -
  have na: "\<not> has_role admin_db (Some ''doc-1'') Admin" by code_simp
  have a: "has_role admin_db (Some ''adm-1'') Admin" by code_simp
  have sa: "has_role sole_admin_db (Some ''adm-1'') Admin" by code_simp
  have r1: "roles_of ''adm-1'' sole_admin_db = [Admin]" by code_simp
  have r2: "roles_of ''adm-2'' admin_db = [Admin]" "roles_of ''adm-1'' admin_db = [Admin]"
    "roles_of ''doc-1'' admin_db = [Doctor]" by code_simp+
  have ne2: "Some ''adm-1'' \<noteq> Some ''adm-2''" and ne3: "Some ''adm-1'' \<noteq> Some ''doc-1''"
    and ne4: "''adm-1'' \<noteq> ''adm-2''"
    by simp_all
  have 1: "demote_from_admin (Some ''doc-1'') ''adm-1'' 50 admin_db = Inl Only_admins_can_demote"
    using demote_from_admin_contract [of admin_db "Some ''doc-1''" "''adm-1''" 50, THEN conjunct1] na
    by (rule mp)
  have 2: "demote_from_admin (Some ''adm-1'') ''adm-1'' 50 sole_admin_db = Inl Cannot_demote_yourself"
    using demote_from_admin_contract [of sole_admin_db "Some ''adm-1''" "''adm-1''" 50,
        THEN conjunct2, THEN conjunct1] sa
    by (rule mp [OF _ conjI [OF _ refl]])
  have "\<exists>d'. demote_from_admin (Some ''adm-1'') ''adm-2'' 50 admin_db = Inr d'"
    using demote_from_admin_contract [of admin_db "Some ''adm-1''" "''adm-2''" 50,
        THEN conjunct2, THEN conjunct2, THEN conjunct1] conjI [OF a ne2]
    by (rule mp)
  then obtain d2 where d2: "demote_from_admin (Some ''adm-1'') ''adm-2'' 50 admin_db = Inr d2" ..
  have c2: "roles_of ''adm-2'' d2 = map (\<lambda>r. if r = Admin then Doctor else r) (roles_of ''adm-2'' admin_db)
      \<and> (\<forall>u. u \<noteq> ''adm-2'' \<longrightarrow> roles_of u d2 = roles_of u admin_db)
      \<and> (\<exists>entry. audit_logs d2 = audit_logs admin_db @ [entry] \<and> actor_id entry = Some ''adm-1''
            \<and> entity_id entry = ''adm-2'' \<and> action entry = ''DEMOTE_FROM_ADMIN'')
      \<and> access_sessions d2 = access_sessions admin_db \<and> patients d2 = patients admin_db
      \<and> profiles d2 = profiles admin_db"
    using demote_from_admin_contract [of admin_db "Some ''adm-1''" "''adm-2''" 50 d2,
        THEN conjunct2, THEN conjunct2, THEN conjunct2] d2
    by (rule mp)
  from c2 have x1: "roles_of ''adm-2'' d2 = [Doctor]" by (simp add: r2)
  from c2 have "\<forall>u. u \<noteq> ''adm-2'' \<longrightarrow> roles_of u d2 = roles_of u admin_db" by (elim conjE)
  then have "roles_of ''adm-1'' d2 = roles_of ''adm-1'' admin_db" using ne4 by (elim allE impE)
  then have x2: "roles_of ''adm-1'' d2 = [Admin]" by (simp only: r2)
  from c2 obtain entry where "audit_logs d2 = audit_logs admin_db @ [entry]" by (elim conjE exE)
  then have x3: "length (audit_logs d2) = Suc (length (audit_logs admin_db))" by simp
  have "\<exists>d'. demote_from_admin (Some ''adm-1'') ''doc-1'' 50 admin_db = Inr d'"
    using demote_from_admin_contract [of admin_db "Some ''adm-1''" "''doc-1''" 50,
        THEN conjunct2, THEN conjunct2, THEN conjunct1] conjI [OF a ne3]
    by (rule mp)
  then obtain d3 where d3: "demote_from_admin (Some ''adm-1'') ''doc-1'' 50 admin_db = Inr d3" ..
  have "roles_of ''doc-1'' d3 = map (\<lambda>r. if r = Admin then Doctor else r) (roles_of ''doc-1'' admin_db)"
    using demote_from_admin_contract [of admin_db "Some ''adm-1''" "''doc-1''" 50 d3,
        THEN conjunct2, THEN conjunct2, THEN conjunct2, THEN mp, OF d3]
    by (elim conjE)
  then have x4: "roles_of ''doc-1'' d3 = [Doctor]" by (simp add: r2)
  have e2: "\<exists>d'. demote_from_admin (Some ''adm-1'') ''adm-2'' 50 admin_db = Inr d'
          \<and> roles_of ''adm-2'' d' = [Doctor] \<and> roles_of ''adm-1'' d' = [Admin]
          \<and> length (audit_logs d') = Suc (length (audit_logs admin_db))"
    using d2 x1 x2 x3 by (intro exI [of _ d2] conjI)
  have e3: "\<exists>d'. demote_from_admin (Some ''adm-1'') ''doc-1'' 50 admin_db = Inr d'
          \<and> roles_of ''doc-1'' d' = [Doctor]"
    using d3 x4 by (intro exI [of _ d3] conjI)
  from na 1 r1 2 e2 e3 show ?thesis by (intro conjI)
qed

subsection \<open>Ending a session\<close>

lemma endSession_fst: "fst (endSession user sid n t d) = Inr ()"
  unfolding endSession_def by simp

lemma endSession_snd:
  "snd (endSession user sid n t d) =
     d\<lparr>access_sessions :=
         map (\<lambda>s. if user = Some (doctor_id s) \<and> session_id s = sid then end_row n t s else s)
           (access_sessions d)\<rparr>"
  unfolding endSession_def update_access_sessions_def rls_update_access_sessions_def end_row_def
  by simp

lemma end_row_fields:
  "session_id (end_row n t s) = session_id s" "doctor_id (end_row n t s) = doctor_id s"
  "status (end_row n t s) = Completed" "ended_at (end_row n t s) = Some t"
  "session_notes (end_row n t s) = or_null n"
  unfolding end_row_def by simp_all

lemma end_row_twice: "end_row n2 t2 (end_row n1 t1 s) = end_row n2 t2 s"
  unfolding end_row_def by simp

lemma endSession_absorbs:
  "snd (endSession user sid n2 t2 (snd (endSession user sid n1 t1 d)))
     = snd (endSession user sid n2 t2 d)"
proof -
  have "map ((\<lambda>s. if user = Some (doctor_id s) \<and> session_id s = sid then end_row n2 t2 s else s)
          \<circ> (\<lambda>s. if user = Some (doctor_id s) \<and> session_id s = sid then end_row n1 t1 s else s))
          (access_sessions d)
      = map (\<lambda>s. if user = Some (doctor_id s) \<and> session_id s = sid then end_row n2 t2 s else s)
          (access_sessions d)"
    by (rule map_cong) (simp_all add: end_row_fields end_row_twice)
  then show ?thesis by (simp add: endSession_snd)
qed

lemma endSession_nth:
  assumes "i < length (access_sessions d)"
  shows "access_sessions (snd (endSession user sid n t d)) ! i =
     (if user = Some (doctor_id (access_sessions d ! i)) \<and> session_id (access_sessions d ! i) = sid
      then end_row n t (access_sessions d ! i) else access_sessions d ! i)"
  using assms by (simp add: endSession_snd)

text \<open>
  Claim C10, as stated, fails for a caller who is not the session's doctor: the update
  policy of the table hides the row from the update, the call succeeds and the stored
  notes and end timestamp stay.
\<close>

theorem endSession_overwrites_counterexample:
  "session_id (access_sessions notes_db ! 0) = ''ses-1''
   \<and> session_notes (access_sessions notes_db ! 0) = Some ''follow up in a week''
   \<and> fst (endSession (Some ''doc-2'') ''ses-1'' None 40 notes_db) = Inr ()
   \<and> session_notes (access_sessions (snd (endSession (Some ''doc-2'') ''ses-1'' None 40 notes_db)) ! 0)
        = Some ''follow up in a week''
   \<and> ended_at (access_sessions (snd (endSession (Some ''doc-2'') ''ses-1'' None 40 notes_db)) ! 0)
        = Some 20"
  by (simp add: endSession_fst endSession_snd notes_db_def)

text \<open>
  Claim C10, amended. For every session of the calling doctor, whatever its status and
  stored notes, \<^verbatim>\<open>endSession\<close> on its id overwrites status, end timestamp and notes with
  completed, the time of the call and \<^verbatim>\<open>notes || null\<close>; with the notes argument
  omitted or the empty string the stored notes become null. For a session of another
  doctor the call succeeds and changes nothing.
\<close>

theorem endSession_overwrites:
  "fst (endSession user sid n t d) = Inr ()
   \<and> or_null None = None \<and> or_null (Some []) = None
   \<and> (i < length (access_sessions d) \<and> session_id (access_sessions d ! i) = sid
        \<and> user = Some (doctor_id (access_sessions d ! i)) \<longrightarrow>
      access_sessions (snd (endSession user sid n t d)) ! i
        = (access_sessions d ! i)\<lparr>status := Completed, ended_at := Some t,
                                   session_notes := or_null n\<rparr>
      \<and> (n = None \<or> n = Some [] \<longrightarrow>
           session_notes (access_sessions (snd (endSession user sid n t d)) ! i) = None))
   \<and> (i < length (access_sessions d) \<and> user \<noteq> Some (doctor_id (access_sessions d ! i)) \<longrightarrow>
      access_sessions (snd (endSession user sid n t d)) ! i = access_sessions d ! i)
   \<and> length (access_sessions (snd (endSession user sid n t d))) = length (access_sessions d)"
proof (intro conjI)
  show "fst (endSession user sid n t d) = Inr ()" by (rule endSession_fst)
  show 2: "or_null None = None" "or_null (Some []) = None" by (simp_all add: or_null_def)
  show "length (access_sessions (snd (endSession user sid n t d))) = length (access_sessions d)"
    by (simp add: endSession_snd)
  show "i < length (access_sessions d) \<and> user \<noteq> Some (doctor_id (access_sessions d ! i)) \<longrightarrow>
      access_sessions (snd (endSession user sid n t d)) ! i = access_sessions d ! i"
    by (simp add: endSession_nth)
  show "i < length (access_sessions d) \<and> session_id (access_sessions d ! i) = sid
        \<and> user = Some (doctor_id (access_sessions d ! i)) \<longrightarrow>
      access_sessions (snd (endSession user sid n t d)) ! i
        = (access_sessions d ! i)\<lparr>status := Completed, ended_at := Some t,
                                   session_notes := or_null n\<rparr>
      \<and> (n = None \<or> n = Some [] \<longrightarrow>
           session_notes (access_sessions (snd (endSession user sid n t d)) ! i) = None)"
  proof
    assume a: "i < length (access_sessions d) \<and> session_id (access_sessions d ! i) = sid
        \<and> user = Some (doctor_id (access_sessions d ! i))"
    then have 1: "access_sessions (snd (endSession user sid n t d)) ! i
        = end_row n t (access_sessions d ! i)"
      by (simp add: endSession_nth)
    from 1 2 show "access_sessions (snd (endSession user sid n t d)) ! i
        = (access_sessions d ! i)\<lparr>status := Completed, ended_at := Some t,
                                   session_notes := or_null n\<rparr>
      \<and> (n = None \<or> n = Some [] \<longrightarrow>
           session_notes (access_sessions (snd (endSession user sid n t d)) ! i) = None)"
      by (auto simp: end_row_def)
  qed
qed

theorem endSession_overwrites_witness:
  "session_notes (access_sessions notes_db ! 1) = Some ''allergy noted''
   \<and> status (access_sessions notes_db ! 1) = Active
   \<and> access_sessions (snd (endSession (Some ''doc-1'') ''ses-2'' None 40 notes_db)) ! 1
       = \<lparr>session_id = ''ses-2'', doctor_id = ''doc-1'', patient_id = ''pat-2'', started_at = 20,
          ended_at = Some 40, status = Completed, session_notes = None, created_at = 20\<rparr>
   \<and> session_notes (access_sessions notes_db ! 0) = Some ''follow up in a week''
   \<and> status (access_sessions notes_db ! 0) = Completed
   \<and> access_sessions (snd (endSession (Some ''doc-1'') ''ses-1'' (Some []) 40 notes_db)) ! 0
       = \<lparr>session_id = ''ses-1'', doctor_id = ''doc-1'', patient_id = ''pat-1'', started_at = 10,
          ended_at = Some 40, status = Completed, session_notes = None, created_at = 10\<rparr>
   \<and> fst (endSession (Some ''doc-2'') ''ses-2'' None 40 notes_db) = Inr ()
   \<and> access_sessions (snd (endSession (Some ''doc-2'') ''ses-2'' None 40 notes_db)) ! 1
       = access_sessions notes_db ! 1"
proof -
  have s: "access_sessions notes_db =
     [\<lparr>session_id = ''ses-1'', doctor_id = ''doc-1'', patient_id = ''pat-1'', started_at = 10,
       ended_at = Some 20, status = Completed, session_notes = Some ''follow up in a week'',
       created_at = 10\<rparr>,
      \<lparr>session_id = ''ses-2'', doctor_id = ''doc-1'', patient_id = ''pat-2'', started_at = 20,
       ended_at = None, status = Active, session_notes = Some ''allergy noted'', created_at = 20\<rparr>]"
    by (simp add: notes_db_def)
  have h1: "1 < length (access_sessions notes_db) \<and> session_id (access_sessions notes_db ! 1) = ''ses-2''
     \<and> Some ''doc-1'' = Some (doctor_id (access_sessions notes_db ! 1))" by (simp add: s)
  have h0: "0 < length (access_sessions notes_db) \<and> session_id (access_sessions notes_db ! 0) = ''ses-1''
     \<and> Some ''doc-1'' = Some (doctor_id (access_sessions notes_db ! 0))" by (simp add: s)
  have h2: "1 < length (access_sessions notes_db)
     \<and> Some ''doc-2'' \<noteq> Some (doctor_id (access_sessions notes_db ! 1))" by (simp add: s)
  have c1: "access_sessions (snd (endSession (Some ''doc-1'') ''ses-2'' None 40 notes_db)) ! 1
     = (access_sessions notes_db ! 1)\<lparr>status := Completed, ended_at := Some 40,
          session_notes := or_null None\<rparr>"
    using endSession_overwrites [where i = 1 and d = notes_db and sid = "''ses-2''"
        and user = "Some ''doc-1''" and n = None and t = 40,
        THEN conjunct2, THEN conjunct2, THEN conjunct2, THEN conjunct1, THEN mp, OF h1]
    by (elim conjE)
  have c0: "access_sessions (snd (endSession (Some ''doc-1'') ''ses-1'' (Some []) 40 notes_db)) ! 0
     = (access_sessions notes_db ! 0)\<lparr>status := Completed, ended_at := Some 40,
          session_notes := or_null (Some [])\<rparr>"
    using endSession_overwrites [where i = 0 and d = notes_db and sid = "''ses-1''"
        and user = "Some ''doc-1''" and n = "Some []" and t = 40,
        THEN conjunct2, THEN conjunct2, THEN conjunct2, THEN conjunct1, THEN mp, OF h0]
    by (elim conjE)
  note o = endSession_overwrites [where i = 1 and d = notes_db and sid = "''ses-2''"
        and user = "Some ''doc-2''" and n = None and t = 40]
  have f: "fst (endSession (Some ''doc-2'') ''ses-2'' None 40 notes_db) = Inr ()"
    using o [THEN conjunct1] .
  have c2: "access_sessions (snd (endSession (Some ''doc-2'') ''ses-2'' None 40 notes_db)) ! 1
       = access_sessions notes_db ! 1"
    using o [THEN conjunct2, THEN conjunct2, THEN conjunct2, THEN conjunct2, THEN conjunct1,
        THEN mp, OF h2] .
  show ?thesis
    unfolding c1 c0 c2 f by (simp add: s or_null_def)
qed

text \<open>
  Claim C6, as stated, fails: after \<^verbatim>\<open>endSession\<close> at time 40 and again at time 50 on
  the doctor's session, both calls succeed, and the end timestamp is that of the second
  call, not of the first.
\<close>

theorem endSession_twice_counterexample:
  "fst (endSession (Some ''doc-1'') ''ses-2'' None 40 demo_db) = Inr ()
   \<and> fst (endSession (Some ''doc-1'') ''ses-2'' None 50
           (snd (endSession (Some ''doc-1'') ''ses-2'' None 40 demo_db))) = Inr ()
   \<and> ended_at (access_sessions (snd (endSession (Some ''doc-1'') ''ses-2'' None 40 demo_db)) ! 1)
       = Some 40
   \<and> ended_at (access_sessions (snd (endSession (Some ''doc-1'') ''ses-2'' None 50
           (snd (endSession (Some ''doc-1'') ''ses-2'' None 40 demo_db)))) ! 1) = Some 50
   \<and> ended_at (access_sessions (snd (endSession (Some ''doc-1'') ''ses-2'' None 50
           (snd (endSession (Some ''doc-1'') ''ses-2'' None 40 demo_db)))) ! 1) \<noteq> Some 40"
  by (simp add: endSession_fst endSession_snd demo_db_def end_row_def)

text \<open>
  Claim C6, amended. \<^verbatim>\<open>endSession\<close> called twice on the same session id succeeds both
  times, and the store after both calls is the store after the second call alone: a
  session of the calling doctor with this id has status completed, and its end timestamp
  and notes are those of the second call.
\<close>

theorem endSession_twice_last_wins:
  "fst (endSession user sid n1 t1 d) = Inr ()
   \<and> fst (endSession user sid n2 t2 (snd (endSession user sid n1 t1 d))) = Inr ()
   \<and> snd (endSession user sid n2 t2 (snd (endSession user sid n1 t1 d)))
        = snd (endSession user sid n2 t2 d)
   \<and> (i < length (access_sessions d) \<and> session_id (access_sessions d ! i) = sid
        \<and> user = Some (doctor_id (access_sessions d ! i)) \<longrightarrow>
       status (access_sessions (snd (endSession user sid n2 t2
                 (snd (endSession user sid n1 t1 d)))) ! i) = Completed
       \<and> ended_at (access_sessions (snd (endSession user sid n2 t2
                 (snd (endSession user sid n1 t1 d)))) ! i) = Some t2
       \<and> session_notes (access_sessions (snd (endSession user sid n2 t2
                 (snd (endSession user sid n1 t1 d)))) ! i) = or_null n2)"
proof (intro conjI impI)
  assume a: "i < length (access_sessions d) \<and> session_id (access_sessions d ! i) = sid
        \<and> user = Some (doctor_id (access_sessions d ! i))"
  let ?d2 = "snd (endSession user sid n2 t2 (snd (endSession user sid n1 t1 d)))"
  have "access_sessions ?d2 ! i = end_row n2 t2 (access_sessions d ! i)"
    using a by (simp add: endSession_absorbs endSession_nth)
  then show "status (access_sessions ?d2 ! i) = Completed"
    "ended_at (access_sessions ?d2 ! i) = Some t2"
    "session_notes (access_sessions ?d2 ! i) = or_null n2"
    by (simp_all add: end_row_fields)
qed (simp_all add: endSession_fst endSession_absorbs)

theorem endSession_twice_last_wins_witness:
  "status (access_sessions (snd (endSession (Some ''doc-1'') ''ses-2'' None 50
       (snd (endSession (Some ''doc-1'') ''ses-2'' (Some ''done'') 40 demo_db)))) ! 1) = Completed
   \<and> ended_at (access_sessions (snd (endSession (Some ''doc-1'') ''ses-2'' None 50
       (snd (endSession (Some ''doc-1'') ''ses-2'' (Some ''done'') 40 demo_db)))) ! 1) = Some 50
   \<and> session_notes (access_sessions (snd (endSession (Some ''doc-1'') ''ses-2'' None 50
       (snd (endSession (Some ''doc-1'') ''ses-2'' (Some ''done'') 40 demo_db)))) ! 1) = None"
proof -
  have h: "1 < length (access_sessions demo_db) \<and> session_id (access_sessions demo_db ! 1) = ''ses-2''
        \<and> Some ''doc-1'' = Some (doctor_id (access_sessions demo_db ! 1))"
    by (simp add: demo_db_def)
  have n: "or_null None = None" by (simp add: or_null_def)
  show ?thesis
    using endSession_twice_last_wins [of "Some ''doc-1''" "''ses-2''" "Some ''done''" 40 demo_db
        None 50 1, THEN conjunct2, THEN conjunct2, THEN conjunct2, THEN mp, OF h]
    unfolding n .
qed

subsection \<open>The status of a session over time\<close>

lemma session_step_refl: "session_step s s"
  unfolding session_step_def by simp

lemma session_step_trans: "session_step a b \<Longrightarrow> session_step b c \<Longrightarrow> session_step a c"
  unfolding session_step_def by auto

lemma session_step_new:
  "session_step a b \<Longrightarrow> status a = Active \<or> status a = Completed
     \<Longrightarrow> status b = Active \<or> status b = Completed"
  unfolding session_step_def by auto

lemma later_sessions_refl: "later_sessions xs xs"
  unfolding later_sessions_def by (simp add: session_step_refl)

lemma later_sessions_trans:
  assumes "later_sessions xs ys" "later_sessions ys zs"
  shows "later_sessions xs zs"
  unfolding later_sessions_def
proof (intro conjI allI impI)
  show "length xs \<le> length zs" using assms unfolding later_sessions_def by simp
next
  fix i assume "i < length xs"
  then have "session_step (xs ! i) (ys ! i)" "session_step (ys ! i) (zs ! i)"
    using assms unfolding later_sessions_def by simp_all
  then show "session_step (xs ! i) (zs ! i)" by (rule session_step_trans)
next
  fix i assume i: "i < length zs" "length xs \<le> i"
  show "status (zs ! i) = Active \<or> status (zs ! i) = Completed"
  proof (cases "i < length ys")
    case True
    with i assms have "status (ys ! i) = Active \<or> status (ys ! i) = Completed"
      "session_step (ys ! i) (zs ! i)"
      unfolding later_sessions_def by simp_all
    then show ?thesis by (rule session_step_new [rotated])
  next
    case False
    with i assms show ?thesis unfolding later_sessions_def by simp
  qed
qed

lemma later_sessions_map_append:
  assumes "\<And>s. session_step s (g s)"
    and "\<And>s. s \<in> set new \<Longrightarrow> status s = Active \<or> status s = Completed"
  shows "later_sessions xs (map g xs @ new)"
  unfolding later_sessions_def
proof (intro conjI allI impI)
  show "length xs \<le> length (map g xs @ new)" by simp
next
  fix i assume "i < length xs"
  then show "session_step (xs ! i) ((map g xs @ new) ! i)"
    by (simp add: nth_append assms(1))
next
  fix i assume i: "i < length (map g xs @ new)" "length xs \<le> i"
  then have "(map g xs @ new) ! i = new ! (i - length xs)" "i - length xs < length new"
    by (simp_all add: nth_append)
  then show "status ((map g xs @ new) ! i) = Active \<or> status ((map g xs @ new) ! i) = Completed"
    using assms(2) by simp
qed

lemma session_step_close: "session_step s (close_active u t s)"
  unfolding session_step_def close_active_def by simp

lemma session_step_end:
  "session_step s (if c s then end_row n t s else s)"
  unfolding session_step_def end_row_def by simp

lemma endSession_later:
  "later_sessions (access_sessions d) (access_sessions (snd (endSession user sid n t d)))"
proof -
  have "later_sessions (access_sessions d)
     (map (\<lambda>s. if user = Some (doctor_id s) \<and> session_id s = sid then end_row n t s else s)
        (access_sessions d) @ [])"
    by (intro later_sessions_map_append session_step_end) simp
  then show ?thesis by (simp add: endSession_snd)
qed

lemma later_sessions_append:
  assumes "status row = Active"
  shows "later_sessions xs (xs @ [row])"
proof -
  have "later_sessions xs (map (\<lambda>s. s) xs @ [row])"
    using assms by (intro later_sessions_map_append session_step_refl) simp
  then show ?thesis by simp
qed

lemma evolves_later:
  "evolves d0 d \<Longrightarrow> later_sessions (access_sessions d0) (access_sessions d)"
proof (induction rule: evolves.induct)
  case e_refl
  show ?case by (rule later_sessions_refl)
next
  case (e_close d u client_now)
  have "later_sessions (access_sessions d) (map (close_active u client_now) (access_sessions d) @ [])"
    by (intro later_sessions_map_append session_step_close) simp
  then have "later_sessions (access_sessions d) (access_sessions (startSession_close u client_now d))"
    by (simp add: startSession_close_sessions)
  with e_close.IH show ?case by (rule later_sessions_trans)
next
  case (e_insert d u pat db_now new_id row d')
  from startSession_insert_Inr [OF e_insert.hyps(2)]
  have "access_sessions d' = access_sessions d @ [row]" "status row = Active" by simp_all
  then have "later_sessions (access_sessions d) (access_sessions d')"
    by (simp add: later_sessions_append)
  with e_insert.IH show ?case by (rule later_sessions_trans)
next
  case (e_end d user sid notes_arg client_now)
  from e_end.IH show ?case by (rule later_sessions_trans [OF _ endSession_later])
next
  case (e_patient d p new_id prow d')
  then show ?case by (simp add: insert_patient_sessions)
next
  case (e_new_user d NEW)
  then show ?case by (simp add: handle_new_user_def)
next
  case (e_promote d auth target db_now d')
  then show ?case
    by (auto simp: promote_to_admin_def Let_def split: if_splits)
next
  case (e_demote d auth target db_now d')
  then show ?case
    by (auto simp: demote_from_admin_def Let_def split: if_splits)
qed

text \<open>
  Claim C7, as stated, fails: \<^verbatim>\<open>endSession\<close> does not look at the status, and turns an
  expired session of the caller into a completed one.
\<close>

theorem session_status_transitions_counterexample:
  "status (access_sessions expired_db ! 0) = Expired
   \<and> session_id (access_sessions expired_db ! 0) = ''ses-1''
   \<and> status (access_sessions (snd (endSession (Some ''doc-1'') ''ses-1'' None 40 expired_db)) ! 0)
       = Completed"
  by (simp add: endSession_snd expired_db_def end_row_def)

text \<open>
  Claim C7, amended. Over every run of the operations a session keeps its place and its
  id; a completed session stays completed; every change of a status is a change to
  completed (from active, by \<^verbatim>\<open>endSession\<close> or by the supersession in
  \<^verbatim>\<open>startSession\<close>, or from expired, by \<^verbatim>\<open>endSession\<close>); \<^verbatim>\<open>startSession\<close> leaves every
  session that is not active as it is; and no operation makes a session expired.
\<close>

theorem session_status_transitions:
  "evolves d d' \<and> i < length (access_sessions d) \<longrightarrow>
     i < length (access_sessions d')
     \<and> session_id (access_sessions d' ! i) = session_id (access_sessions d ! i)
     \<and> (status (access_sessions d ! i) = Completed \<longrightarrow> status (access_sessions d' ! i) = Completed)
     \<and> (status (access_sessions d' ! i) \<noteq> status (access_sessions d ! i) \<longrightarrow>
          status (access_sessions d' ! i) = Completed)
     \<and> (status (access_sessions d ! i) \<noteq> Active \<longrightarrow>
          access_sessions (snd (startSession user pat client_now db_now new_id d)) ! i
            = access_sessions d ! i)
     \<and> (\<forall>j < length (access_sessions d'). status (access_sessions d' ! j) = Expired \<longrightarrow>
          j < length (access_sessions d) \<and> status (access_sessions d ! j) = Expired)"
proof (intro impI)
  assume a: "evolves d d' \<and> i < length (access_sessions d)"
  then have l: "later_sessions (access_sessions d) (access_sessions d')"
    by (simp add: evolves_later)
  with a have i: "i < length (access_sessions d')"
    and st: "session_step (access_sessions d ! i) (access_sessions d' ! i)"
    unfolding later_sessions_def by simp_all
  have frame: "status (access_sessions d ! i) \<noteq> Active \<longrightarrow>
          access_sessions (snd (startSession user pat client_now db_now new_id d)) ! i
            = access_sessions d ! i"
  proof (cases "or_null user")
    case None
    then show ?thesis by (simp add: startSession_unauth)
  next
    case (Some u)
    from startSession_new_row [OF Some, of pat client_now db_now new_id d] obtain new where
      eq: "access_sessions (snd (startSession user pat client_now db_now new_id d))
           = map (close_active u client_now) (access_sessions d) @ new" by blast
    show ?thesis using a unfolding eq by (simp add: nth_append close_active_def)
  qed
  have exp: "\<forall>j < length (access_sessions d'). status (access_sessions d' ! j) = Expired \<longrightarrow>
          j < length (access_sessions d) \<and> status (access_sessions d ! j) = Expired"
  proof (intro allI impI)
    fix j assume j: "j < length (access_sessions d')" "status (access_sessions d' ! j) = Expired"
    show "j < length (access_sessions d) \<and> status (access_sessions d ! j) = Expired"
    proof (cases "j < length (access_sessions d)")
      case True
      with l have "session_step (access_sessions d ! j) (access_sessions d' ! j)"
        unfolding later_sessions_def by simp
      with j True show ?thesis unfolding session_step_def by auto
    next
      case False
      then have "length (access_sessions d) \<le> j" by simp
      with l j have "status (access_sessions d' ! j) = Active \<or> status (access_sessions d' ! j) = Completed"
        unfolding later_sessions_def by blast
      with j show ?thesis by simp
    qed
  qed
  from i st frame exp show "i < length (access_sessions d')
     \<and> session_id (access_sessions d' ! i) = session_id (access_sessions d ! i)
     \<and> (status (access_sessions d ! i) = Completed \<longrightarrow> status (access_sessions d' ! i) = Completed)
     \<and> (status (access_sessions d' ! i) \<noteq> status (access_sessions d ! i) \<longrightarrow>
          status (access_sessions d' ! i) = Completed)
     \<and> (status (access_sessions d ! i) \<noteq> Active \<longrightarrow>
          access_sessions (snd (startSession user pat client_now db_now new_id d)) ! i
            = access_sessions d ! i)
     \<and> (\<forall>j < length (access_sessions d'). status (access_sessions d' ! j) = Expired \<longrightarrow>
          j < length (access_sessions d) \<and> status (access_sessions d ! j) = Expired)"
    unfolding session_step_def by auto
qed

theorem session_status_transitions_witness:
  "evolves demo_db (snd (endSession (Some ''doc-1'') ''ses-1'' (Some ''again'') 60
       (snd (startSession (Some ''doc-1'') ''pat-1'' 30 31 ''ses-3'' demo_db))))
   \<and> status (access_sessions demo_db ! 0) = Completed
   \<and> session_id (access_sessions (snd (endSession (Some ''doc-1'') ''ses-1'' (Some ''again'') 60
       (snd (startSession (Some ''doc-1'') ''pat-1'' 30 31 ''ses-3'' demo_db)))) ! 0) = ''ses-1''
   \<and> status (access_sessions (snd (endSession (Some ''doc-1'') ''ses-1'' (Some ''again'') 60
       (snd (startSession (Some ''doc-1'') ''pat-1'' 30 31 ''ses-3'' demo_db)))) ! 0) = Completed
   \<and> access_sessions (snd (startSession (Some ''doc-1'') ''pat-1'' 30 31 ''ses-3'' demo_db)) ! 0
       = access_sessions demo_db ! 0"
proof -
  let ?d1 = "snd (startSession (Some ''doc-1'') ''pat-1'' 30 31 ''ses-3'' demo_db)"
  let ?d2 = "snd (endSession (Some ''doc-1'') ''ses-1'' (Some ''again'') 60 ?d1)"
  have ev: "evolves demo_db ?d2" by (intro e_end evolves_startSession e_refl)
  have len: "0 < length (access_sessions demo_db)" by (simp add: demo_db_def)
  have c: "status (access_sessions demo_db ! 0) = Completed" by (simp add: demo_db_def)
  have na: "status (access_sessions demo_db ! 0) \<noteq> Active" by (simp add: c)
  have sid: "session_id (access_sessions demo_db ! 0) = ''ses-1''" by (simp add: demo_db_def)
  note t = session_status_transitions [of demo_db ?d2 0 "Some ''doc-1''" "''pat-1''" 30 31 "''ses-3''",
      THEN mp, OF conjI [OF ev len]]
  from t have 1: "session_id (access_sessions ?d2 ! 0) = session_id (access_sessions demo_db ! 0)"
    by (elim conjE)
  from t have "status (access_sessions demo_db ! 0) = Completed \<longrightarrow>
      status (access_sessions ?d2 ! 0) = Completed" by (elim conjE)
  then have 2: "status (access_sessions ?d2 ! 0) = Completed" using c by (rule mp)
  from t have "status (access_sessions demo_db ! 0) \<noteq> Active \<longrightarrow>
      access_sessions ?d1 ! 0 = access_sessions demo_db ! 0" by (elim conjE)
  then have 3: "access_sessions ?d1 ! 0 = access_sessions demo_db ! 0" using na by (rule mp)
  from ev c 1 [unfolded sid] 2 3 show ?thesis by (intro conjI)
qed

subsection \<open>Tag resolution\<close>

lemma select_patient_Some:
  "select_patient_by_caretag sc d = Inr (Some p)
     \<longleftrightarrow> filter (\<lambda>q. caretag_id q = sc) (patients d) = [p]"
  unfolding select_patient_by_caretag_def by (rule maybe_single_Some)

lemma select_patient_None:
  "select_patient_by_caretag sc d = Inr None \<longleftrightarrow> (\<forall>q \<in> set (patients d). caretag_id q \<noteq> sc)"
  unfolding select_patient_by_caretag_def by (simp add: maybe_single_None filter_empty_conv)

lemma processScannedId_direct:
  assumes "\<not> processing env" "or_null (map_option js_toUpperCase (param_expect env)) = None"
  shows "processScannedId env tag d = direct_scan env (js_toUpperCase (js_trim tag)) d"
  using assms unfolding processScannedId_def Let_def by (simp split: option.splits)

lemma processScannedId_expected:
  assumes "\<not> processing env" "or_null (map_option js_toUpperCase (param_expect env)) = Some e"
  shows "processScannedId env tag d =
     (if js_toUpperCase (js_trim tag) \<noteq> e then (Mismatch (js_toUpperCase (js_trim tag)), d)
      else case or_null (param_id env) of
             Some pid \<Rightarrow> start_and_navigate env pid d
           | None \<Rightarrow> direct_scan env (js_toUpperCase (js_trim tag)) d)"
  using assms unfolding processScannedId_def Let_def by (simp split: option.splits)

lemma direct_scan_found:
  assumes "select_patient_by_caretag sc d = Inr (Some p)"
  shows "direct_scan env sc d = start_and_navigate env (patient_pk p) d"
  using assms unfolding direct_scan_def by simp

lemma direct_scan_created:
  assumes "select_patient_by_caretag sc d = Inr None"
    and "new_patient_id env \<notin> set (map patient_pk (patients d))"
  shows "direct_scan env sc d =
     start_and_navigate env (new_patient_id env)
       (d\<lparr>patients := patients d @
            [(random_patient env)\<lparr>caretag_id := sc, patient_pk := new_patient_id env\<rparr>]\<rparr>)"
  using assms unfolding direct_scan_def insert_patient_def Let_def by simp

lemma norm_ct1: "js_toUpperCase (js_trim '' ct-1 '') = ''CT-1''"
  by code_simp

lemma norm_ct3: "js_toUpperCase (js_trim ''ct-3'') = ''CT-3''"
  by code_simp

text \<open>
  Claim C9, as stated, fails when the page expects a tag: the scanned string \<^verbatim>\<open>" ct-1 "\<close>
  normalizes to \<^verbatim>\<open>CT-1\<close>, a patient with that tag is stored, yet with
  \<^verbatim>\<open>expect=ct-2\<close> the run ends in a mismatch: no session is started and the store is
  unchanged.
\<close>

theorem processScannedId_resolution_counterexample:
  "js_toUpperCase (js_trim '' ct-1 '') = ''CT-1''
   \<and> select_patient_by_caretag ''CT-1'' demo_db = Inr (Some (patients demo_db ! 0))
   \<and> patient_pk (patients demo_db ! 0) = ''pat-1''
   \<and> processScannedId expect_env '' ct-1 '' demo_db = (Mismatch ''CT-1'', demo_db)
   \<and> map patient_id (active_sessions_of ''doc-1'' demo_db) = [''pat-2'']"
  by code_simp

text \<open>
  Claim C9, amended. A run that is not ignored normalizes the scanned string by trimming
  and upper-casing, and the run depends on the string only through the normalized one.
  When the page expects no tag, it looks up the patients whose stored tag equals the
  normalized string exactly: a patient is found when exactly one has it, and then
  \<^verbatim>\<open>startSession\<close> is called for that patient; when none has it (and the generated id
  is new), a patient record with tag the normalized string is inserted and
  \<^verbatim>\<open>startSession\<close> is called for the new patient. When the page expects a tag, a
  different scanned tag ends in a mismatch with the store unchanged, and the expected tag
  with an expected patient id calls \<^verbatim>\<open>startSession\<close> for that id without a lookup.
\<close>

theorem processScannedId_resolution:
  "\<not> processing env \<longrightarrow>
   (or_null (map_option js_toUpperCase (param_expect env)) = None \<longrightarrow>
      (select_patient_by_caretag (js_toUpperCase (js_trim tag)) d = Inr (Some p)
         = (filter (\<lambda>q. caretag_id q = js_toUpperCase (js_trim tag)) (patients d) = [p]))
      \<and> (select_patient_by_caretag (js_toUpperCase (js_trim tag)) d = Inr (Some p) \<longrightarrow>
            processScannedId env tag d = start_and_navigate env (patient_pk p) d)
      \<and> (select_patient_by_caretag (js_toUpperCase (js_trim tag)) d = Inr None
            = (\<forall>q \<in> set (patients d). caretag_id q \<noteq> js_toUpperCase (js_trim tag)))
      \<and> (select_patient_by_caretag (js_toUpperCase (js_trim tag)) d = Inr None
          \<and> new_patient_id env \<notin> set (map patient_pk (patients d)) \<longrightarrow>
            processScannedId env tag d =
              start_and_navigate env (new_patient_id env)
                (d\<lparr>patients := patients d @
                     [(random_patient env)\<lparr>caretag_id := js_toUpperCase (js_trim tag),
                                           patient_pk := new_patient_id env\<rparr>]\<rparr>)))
   \<and> (or_null (map_option js_toUpperCase (param_expect env)) = Some e \<longrightarrow>
        (js_toUpperCase (js_trim tag) \<noteq> e \<longrightarrow>
           processScannedId env tag d = (Mismatch (js_toUpperCase (js_trim tag)), d))
        \<and> (js_toUpperCase (js_trim tag) = e \<and> or_null (param_id env) = Some pid \<longrightarrow>
           processScannedId env tag d = start_and_navigate env pid d))
   \<and> snd (start_and_navigate env pid d)
        = snd (startSession (env_user env) pid (env_client_now env) (env_db_now env)
                 (new_session_id env) d)
   \<and> (js_toUpperCase (js_trim tag') = js_toUpperCase (js_trim tag) \<longrightarrow>
        processScannedId env tag' d = processScannedId env tag d)"
proof (intro impI conjI)
  assume np: "\<not> processing env"
  show "snd (start_and_navigate env pid d)
        = snd (startSession (env_user env) pid (env_client_now env) (env_db_now env)
                 (new_session_id env) d)"
    by (rule start_and_navigate_snd)
  {
    assume "js_toUpperCase (js_trim tag') = js_toUpperCase (js_trim tag)"
    then show "processScannedId env tag' d = processScannedId env tag d"
      unfolding processScannedId_def by simp
  }
  {
    assume e: "or_null (map_option js_toUpperCase (param_expect env)) = Some e"
    {
      assume "js_toUpperCase (js_trim tag) \<noteq> e"
      then show "processScannedId env tag d = (Mismatch (js_toUpperCase (js_trim tag)), d)"
        by (simp add: processScannedId_expected [OF np e])
    }
    {
      assume "js_toUpperCase (js_trim tag) = e \<and> or_null (param_id env) = Some pid"
      then show "processScannedId env tag d = start_and_navigate env pid d"
        by (simp add: processScannedId_expected [OF np e])
    }
  }
  {
    assume n: "or_null (map_option js_toUpperCase (param_expect env)) = None"
    show "select_patient_by_caretag (js_toUpperCase (js_trim tag)) d = Inr (Some p)
         = (filter (\<lambda>q. caretag_id q = js_toUpperCase (js_trim tag)) (patients d) = [p])"
      by (rule select_patient_Some)
    show "select_patient_by_caretag (js_toUpperCase (js_trim tag)) d = Inr None
            = (\<forall>q \<in> set (patients d). caretag_id q \<noteq> js_toUpperCase (js_trim tag))"
      by (rule select_patient_None)
    {
      assume "select_patient_by_caretag (js_toUpperCase (js_trim tag)) d = Inr (Some p)"
      then show "processScannedId env tag d = start_and_navigate env (patient_pk p) d"
        by (simp add: processScannedId_direct [OF np n] direct_scan_found)
    }
    {
      assume "select_patient_by_caretag (js_toUpperCase (js_trim tag)) d = Inr None
          \<and> new_patient_id env \<notin> set (map patient_pk (patients d))"
      then show "processScannedId env tag d =
              start_and_navigate env (new_patient_id env)
                (d\<lparr>patients := patients d @
                     [(random_patient env)\<lparr>caretag_id := js_toUpperCase (js_trim tag),
                                           patient_pk := new_patient_id env\<rparr>]\<rparr>)"
        by (simp add: processScannedId_direct [OF np n] direct_scan_created)
    }
  }
qed

theorem processScannedId_resolution_witness:
  "select_patient_by_caretag ''CT-1'' demo_db = Inr (Some (patients demo_db ! 0))
   \<and> processScannedId (demo_env ''pat-3'' ''ses-3'' 30) '' ct-1 '' demo_db
       = start_and_navigate (demo_env ''pat-3'' ''ses-3'' 30) ''pat-1'' demo_db
   \<and> fst (processScannedId (demo_env ''pat-3'' ''ses-3'' 30) '' ct-1 '' demo_db) = Navigated ''pat-1''
   \<and> map patient_id (active_sessions_of ''doc-1''
        (snd (processScannedId (demo_env ''pat-3'' ''ses-3'' 30) '' ct-1 '' demo_db))) = [''pat-1'']
   \<and> select_patient_by_caretag ''CT-3'' demo_db = Inr None
   \<and> processScannedId (demo_env ''pat-3'' ''ses-3'' 30) ''ct-3'' demo_db
       = start_and_navigate (demo_env ''pat-3'' ''ses-3'' 30) ''pat-3''
           (demo_db\<lparr>patients := patients demo_db @
              [demo_patient\<lparr>caretag_id := ''CT-3'', patient_pk := ''pat-3''\<rparr>]\<rparr>)
   \<and> fst (processScannedId (demo_env ''pat-3'' ''ses-3'' 30) ''ct-3'' demo_db) = Navigated ''pat-3''
   \<and> map patient_id (active_sessions_of ''doc-1''
        (snd (processScannedId (demo_env ''pat-3'' ''ses-3'' 30) ''ct-3'' demo_db))) = [''pat-3'']
   \<and> processScannedId expect_env ''ct-2 '' demo_db = start_and_navigate expect_env ''pat-2'' demo_db"
proof -
  let ?env = "demo_env ''pat-3'' ''ses-3'' 30"
  have np: "\<not> processing ?env" and n: "or_null (map_option js_toUpperCase (param_expect ?env)) = None"
    and rp: "random_patient ?env = demo_patient" and ni: "new_patient_id ?env = ''pat-3''"
    by (simp_all add: demo_env_def or_null_def)
  have npx: "\<not> processing expect_env"
    by (simp add: expect_env_def demo_env_def)
  have ex: "or_null (map_option js_toUpperCase (param_expect expect_env)) = Some ''CT-2''"
    by code_simp
  have ix: "or_null (param_id expect_env) = Some ''pat-2''" by code_simp
  have n2: "js_toUpperCase (js_trim ''ct-2 '') = ''CT-2''" by code_simp
  have s1: "select_patient_by_caretag ''CT-1'' demo_db = Inr (Some (patients demo_db ! 0))"
    by code_simp
  have p1: "patient_pk (patients demo_db ! 0) = ''pat-1''" by code_simp
  have s3: "select_patient_by_caretag ''CT-3'' demo_db = Inr None" by code_simp
  have f3: "''pat-3'' \<notin> set (map patient_pk (patients demo_db))" by code_simp
  have a: "processScannedId ?env '' ct-1 '' demo_db = start_and_navigate ?env ''pat-1'' demo_db"
    using processScannedId_resolution [of ?env "'' ct-1 ''" demo_db "patients demo_db ! 0",
        THEN mp, OF np, THEN conjunct1, THEN mp, OF n, THEN conjunct2, THEN conjunct1]
      s1
    unfolding norm_ct1 p1 by (rule mp)
  have b: "processScannedId ?env ''ct-3'' demo_db = start_and_navigate ?env ''pat-3''
           (demo_db\<lparr>patients := patients demo_db @
              [demo_patient\<lparr>caretag_id := ''CT-3'', patient_pk := ''pat-3''\<rparr>]\<rparr>)"
    using processScannedId_resolution [of ?env "''ct-3''" demo_db,
        THEN mp, OF np, THEN conjunct1, THEN mp, OF n, THEN conjunct2, THEN conjunct2, THEN conjunct2]
      conjI [OF s3 f3]
    unfolding norm_ct3 rp ni by (rule mp)
  have c: "processScannedId expect_env ''ct-2 '' demo_db = start_and_navigate expect_env ''pat-2'' demo_db"
    using processScannedId_resolution [of expect_env "''ct-2 ''" demo_db _ "''CT-2''" "''pat-2''",
        THEN mp, OF npx, THEN conjunct2, THEN conjunct1, THEN mp, OF ex, THEN conjunct2]
      conjI [OF n2 ix]
    by (rule mp)
  have e1: "fst (processScannedId ?env '' ct-1 '' demo_db) = Navigated ''pat-1''" by code_simp
  have e2: "map patient_id (active_sessions_of ''doc-1''
        (snd (processScannedId ?env '' ct-1 '' demo_db))) = [''pat-1'']" by code_simp
  have e3: "fst (processScannedId ?env ''ct-3'' demo_db) = Navigated ''pat-3''" by code_simp
  have e4: "map patient_id (active_sessions_of ''doc-1''
        (snd (processScannedId ?env ''ct-3'' demo_db))) = [''pat-3'']" by code_simp
  from s1 a e1 e2 s3 b e3 e4 c show ?thesis by (intro conjI)
qed


end
